theory Spec2Isabelle
  imports Complex_Main "HOL-Library.AList"
begin

section \<open>The JavaScript \<open>Map\<close>\<close>

text \<open>
  Both programs keep their state in JavaScript \<open>Map\<close>s. A \<open>Map\<close> remembers the order in
  which its keys were first inserted: \<open>set\<close> on a key that is present replaces the value in
  place, \<open>set\<close> on a new key appends, and \<open>forEach\<close> and \<open>values()\<close> walk the entries in that
  order. The order is observable in \<open>closeAllConnections\<close> (\<open>forEach\<close>) and in the signal
  relay (\<open>Array.from(users.values()).find\<close>), so a \<open>Map\<close> is an association list here.
\<close>

type_synonym ('k, 'v) jsmap = "('k \<times> 'v) list"

definition map_get :: "('k, 'v) jsmap \<Rightarrow> 'k \<Rightarrow> 'v option" where
  "map_get m k = map_of m k"

definition map_has :: "('k, 'v) jsmap \<Rightarrow> 'k \<Rightarrow> bool" where
  "map_has m k = (map_of m k \<noteq> None)"

definition map_set :: "('k, 'v) jsmap \<Rightarrow> 'k \<Rightarrow> 'v \<Rightarrow> ('k, 'v) jsmap" where
  "map_set m k v = AList.update k v m"

definition map_delete :: "('k, 'v) jsmap \<Rightarrow> 'k \<Rightarrow> ('k, 'v) jsmap" where
  "map_delete m k = AList.delete k m"

definition map_values :: "('k, 'v) jsmap \<Rightarrow> 'v list" where
  "map_values m = map snd m"

section \<open>The peer lifecycle manager (src/app/lib/webrtc.ts)\<close>

text \<open>
  A signal is an opaque payload (\<open>any\<close> in the source). The underlying
  \<open>Peer.Instance\<close> of simple-peer is an object of a library that is not part of the
  repository: it is represented by a handle, a number that \<open>new Peer\<close> never hands out
  twice, and every call the manager makes on it is recorded in a trace, together with every
  write of a \<open>destroyed\<close> flag. The media stream and the ICE configuration passed to the
  constructor, \<open>localStream\<close> and \<open>onStreamCallback\<close> take no part in what follows and
  are left out.
\<close>

type_synonym signal = string

record PeerConnection =
  peerId :: string
  peer :: nat
  initiator :: bool
  destroyed :: bool

datatype action =
    Construct nat string bool  \<comment> \<open>\<open>new Peer({initiator, ...})\<close> returned this handle, for this peer id\<close>
  | Signal nat signal          \<comment> \<open>\<open>peer.signal(signal)\<close> on this handle\<close>
  | Destroy nat                \<comment> \<open>\<open>peer.destroy()\<close> on this handle\<close>
  | Mark string nat            \<comment> \<open>\<open>destroyed = true\<close> written to the entry of this peer id\<close>

record WebRTCConnection =
  peers :: "(string, PeerConnection) jsmap"
  pendingSignals :: "(string, signal list) jsmap"
  next_handle :: nat
  trace :: "action list"

definition constructor :: WebRTCConnection where
  "constructor = \<lparr>peers = [], pendingSignals = [], next_handle = 0, trace = []\<rparr>"

definition hasPeer :: "WebRTCConnection \<Rightarrow> string \<Rightarrow> bool" where
  "hasPeer s pid =
     (case map_get (peers s) pid of None \<Rightarrow> False | Some pc \<Rightarrow> \<not> destroyed pc)"

text \<open>
  One turn of the \<open>forEach\<close> in \<open>applyPendingSignals\<close>: the entry is looked up again for
  every signal, and the signal is passed on only to an entry that is not destroyed. An
  exception of \<open>peer.signal\<close> is caught inside the turn and changes nothing else.
\<close>

definition apply_signal :: "string \<Rightarrow> WebRTCConnection \<Rightarrow> signal \<Rightarrow> WebRTCConnection" where
  "apply_signal pid s sig =
     (case map_get (peers s) pid of
        None \<Rightarrow> s
      | Some peerConnection \<Rightarrow>
          if \<not> destroyed peerConnection
          then s\<lparr>trace := trace s @ [Signal (peer peerConnection) sig]\<rparr>
          else s)"

definition applyPendingSignals :: "string \<Rightarrow> WebRTCConnection \<Rightarrow> WebRTCConnection" where
  "applyPendingSignals pid s =
     (case map_get (pendingSignals s) pid of
        None \<Rightarrow> s
      | Some signals \<Rightarrow>
          (let s' = foldl (apply_signal pid) s signals
           in s'\<lparr>pendingSignals := map_delete (pendingSignals s') pid\<rparr>))"

datatype error = PeerConstructorThrew

text \<open>
  \<open>createPeer\<close> after its first \<open>if\<close>: \<open>new Peer\<close> either throws (\<open>supported = False\<close>;
  the \<open>catch\<close> rethrows) or returns a fresh handle; then the entry is stored and the
  pending signals are applied.
\<close>

definition create_new ::
  "string \<Rightarrow> bool \<Rightarrow> bool \<Rightarrow> WebRTCConnection \<Rightarrow> (error + PeerConnection) \<times> WebRTCConnection" where
  "create_new pid ini supported s =
     (if \<not> supported then (Inl PeerConstructorThrew, s)
      else
        let h = next_handle s;
            peerConnection = \<lparr>peerId = pid, peer = h, initiator = ini, destroyed = False\<rparr>;
            s1 = s\<lparr>next_handle := Suc h, trace := trace s @ [Construct h pid ini]\<rparr>;
            s2 = s1\<lparr>peers := map_set (peers s1) pid peerConnection\<rparr>
        in (Inr peerConnection, applyPendingSignals pid s2))"

definition createPeer ::
  "string \<Rightarrow> bool \<Rightarrow> bool \<Rightarrow> WebRTCConnection \<Rightarrow> (error + PeerConnection) \<times> WebRTCConnection" where
  "createPeer pid ini supported s =
     (if map_has (peers s) pid then
        (case map_get (peers s) pid of
           None \<Rightarrow> create_new pid ini supported s
         | Some existingPeer \<Rightarrow>
             if destroyed existingPeer
             then create_new pid ini supported (s\<lparr>peers := map_delete (peers s) pid\<rparr>)
             else (Inr existingPeer, s))
      else create_new pid ini supported s)"

definition handleSignal :: "signal \<Rightarrow> string \<Rightarrow> WebRTCConnection \<Rightarrow> WebRTCConnection" where
  "handleSignal sig from_id s =
     (let store =
            (let p1 = (if \<not> map_has (pendingSignals s) from_id
                       then map_set (pendingSignals s) from_id []
                       else pendingSignals s)
             in case map_get p1 from_id of
                  None \<Rightarrow> s\<lparr>pendingSignals := p1\<rparr>
                | Some q \<Rightarrow> s\<lparr>pendingSignals := map_set p1 from_id (q @ [sig])\<rparr>)
      in case map_get (peers s) from_id of
           None \<Rightarrow> store
         | Some peerConnection \<Rightarrow>
             if \<not> destroyed peerConnection
             then s\<lparr>trace := trace s @ [Signal (peer peerConnection) sig]\<rparr>
             else store)"

definition removePeer :: "string \<Rightarrow> WebRTCConnection \<Rightarrow> WebRTCConnection" where
  "removePeer pid s =
     (case map_get (peers s) pid of
        None \<Rightarrow> s
      | Some peerConnection \<Rightarrow>
          if \<not> destroyed peerConnection
          then s\<lparr>peers := map_delete (peers s) pid,
                 pendingSignals := map_delete (pendingSignals s) pid,
                 trace := trace s @ [Mark pid (peer peerConnection), Destroy (peer peerConnection)]\<rparr>
          else s)"

text \<open>
  One turn of the \<open>forEach\<close> in \<open>closeAllConnections\<close>: the flag of the entry is set, then
  its connection is destroyed (an exception of \<open>destroy\<close> is caught in the turn).
\<close>

definition close_one :: "WebRTCConnection \<Rightarrow> string \<times> PeerConnection \<Rightarrow> WebRTCConnection" where
  "close_one s e =
     (case e of (pid, peerConnection) \<Rightarrow>
        s\<lparr>peers := map_set (peers s) pid (peerConnection\<lparr>destroyed := True\<rparr>),
          trace := trace s @ [Mark pid (peer peerConnection), Destroy (peer peerConnection)]\<rparr>)"

definition closeAllConnections :: "WebRTCConnection \<Rightarrow> WebRTCConnection" where
  "closeAllConnections s =
     (let s' = foldl close_one s (peers s)
      in s'\<lparr>peers := [], pendingSignals := []\<rparr>)"

text \<open>
  The \<open>close\<close> and \<open>error\<close> handlers that \<open>createPeer\<close> installs on a connection: both set
  the flag of whatever entry the map holds for the peer id at that moment. The events come
  from simple-peer, which emits them from a microtask and not from within \<open>signal\<close> or
  \<open>destroy\<close>: they are steps of their own, between the operations of the manager.
\<close>

definition on_close :: "string \<Rightarrow> WebRTCConnection \<Rightarrow> WebRTCConnection" where
  "on_close pid s =
     (if map_has (peers s) pid then
        (case map_get (peers s) pid of
           None \<Rightarrow> s
         | Some pc \<Rightarrow> s\<lparr>peers := map_set (peers s) pid (pc\<lparr>destroyed := True\<rparr>),
                        trace := trace s @ [Mark pid (peer pc)]\<rparr>)
      else s)"

definition on_error :: "string \<Rightarrow> WebRTCConnection \<Rightarrow> WebRTCConnection" where
  "on_error pid s = on_close pid s"

datatype op =
    HandleSignal signal string
  | CreatePeer string bool bool
  | RemovePeer string
  | CloseAllConnections
  | PeerClose string
  | PeerError string

fun exec :: "WebRTCConnection \<Rightarrow> op \<Rightarrow> WebRTCConnection" where
  "exec s (HandleSignal sig from_id) = handleSignal sig from_id s"
| "exec s (CreatePeer pid ini supported) = snd (createPeer pid ini supported s)"
| "exec s (RemovePeer pid) = removePeer pid s"
| "exec s CloseAllConnections = closeAllConnections s"
| "exec s (PeerClose pid) = on_close pid s"
| "exec s (PeerError pid) = on_error pid s"

definition run :: "WebRTCConnection \<Rightarrow> op list \<Rightarrow> WebRTCConnection" where
  "run s ops = foldl exec s ops"

definition queue :: "WebRTCConnection \<Rightarrow> string \<Rightarrow> signal list" where
  "queue s pid = (case map_get (pendingSignals s) pid of None \<Rightarrow> [] | Some q \<Rightarrow> q)"

subsection \<open>The specification's reading of bulk teardown\<close>

text \<open>
  "Every entry is first marked destroyed, then torn down": in a trace that keeps this
  order no flag is written once the first connection has been destroyed.
\<close>

fun is_mark :: "action \<Rightarrow> bool" where
  "is_mark (Mark pid h) = True"
| "is_mark _ = False"

fun is_destroy :: "action \<Rightarrow> bool" where
  "is_destroy (Destroy h) = True"
| "is_destroy _ = False"

definition marks_precede_destroys :: "action list \<Rightarrow> bool" where
  "marks_precede_destroys tr =
     list_all (\<lambda>a. \<not> is_mark a) (dropWhile (\<lambda>a. \<not> is_destroy a) tr)"


section \<open>JavaScript values\<close>

text \<open>
  The server does not check the shape of what a client sends. Where a handler only passes
  a part of the payload on, or looks into it with \<open>typeof\<close>, \<open>||\<close> or an object spread,
  that part is a value of JavaScript as JSON can carry it; \<open>JUndefined\<close> stands for a
  field that is not there. An object is the list of its own fields, each key once. Room
  ids, participant ids, display names at a join and transport ids are the strings of the
  protocol.
\<close>

datatype jsval =
    JUndefined
  | JNull
  | JBool bool
  | JNum real
  | JStr string
  | JArr "jsval list"
  | JObj "(string \<times> jsval) list"

type_synonym object = "(string \<times> jsval) list"

text \<open>What \<open>||\<close> and \<open>if\<close> take for true.\<close>

fun truthy :: "jsval \<Rightarrow> bool" where
  "truthy JUndefined = False"
| "truthy JNull = False"
| "truthy (JBool b) = b"
| "truthy (JNum n) = (n \<noteq> 0)"
| "truthy (JStr s) = (s \<noteq> [])"
| "truthy (JArr xs) = True"
| "truthy (JObj fs) = True"

text \<open>\<open>typeof v === 'object'\<close>: objects, arrays and \<open>null\<close>.\<close>

fun typeof_object :: "jsval \<Rightarrow> bool" where
  "typeof_object JNull = True"
| "typeof_object (JArr xs) = True"
| "typeof_object (JObj fs) = True"
| "typeof_object _ = False"

text \<open>\<open>o.k\<close> for an object \<open>o\<close>: the value of the field, or \<open>undefined\<close>.\<close>

definition field :: "object \<Rightarrow> string \<Rightarrow> jsval" where
  "field obj k = (case map_of obj k of None \<Rightarrow> JUndefined | Some v \<Rightarrow> v)"

datatype js_error = TypeError

text \<open>
  \<open>v.name\<close> for any value \<open>v\<close>: reading a property of \<open>null\<close> or \<open>undefined\<close> throws; an
  array or a primitive value has no property of this name.
\<close>

fun name_of :: "jsval \<Rightarrow> js_error + jsval" where
  "name_of JUndefined = Inl TypeError"
| "name_of JNull = Inl TypeError"
| "name_of (JObj fs) = Inr (field fs ''name'')"
| "name_of _ = Inr JUndefined"

text \<open>The decimal numeral of an index, as the key of an array element.\<close>

fun decimal :: "nat \<Rightarrow> string" where
  "decimal n =
     (if n < 10 then [''0123456789'' ! n]
      else decimal (n div 10) @ [''0123456789'' ! (n mod 10)])"

text \<open>
  The own enumerable fields that an object spread \<open>{...v}\<close> copies: the fields of an
  object, the elements of an array and the characters of a string under their indices,
  nothing for the other values.
\<close>

fun own_fields :: "jsval \<Rightarrow> object" where
  "own_fields (JObj fs) = fs"
| "own_fields (JArr xs) = zip (map decimal [0..<length xs]) xs"
| "own_fields (JStr cs) = zip (map decimal [0..<length cs]) (map (\<lambda>c. JStr [c]) cs)"
| "own_fields _ = []"

text \<open>
  The object spread \<open>{...obj, ...v}\<close>: the fields of \<open>v\<close> are written over \<open>obj\<close> one
  after the other, a new key behind the keys that are there. (JavaScript lists the keys
  that are array indices before the others; no handler looks at the order of the keys,
  fields are read with \<open>field\<close>.)
\<close>

definition spread :: "object \<Rightarrow> jsval \<Rightarrow> object" where
  "spread obj v = foldl (\<lambda>acc (k, x). AList.update k x acc) obj (own_fields v)"

section \<open>The signaling server (src/server.js)\<close>

text \<open>
  The record that \<open>join-room\<close> builds is stored twice: under the transport id in the table
  \<open>users\<close>, and in the list of its room. No handler changes such an object (\<open>update-media\<close>
  puts a new object into the list), so the table keeps it as a record of its four strings;
  the list of a room holds objects, which \<open>update-media\<close> may give any field.
\<close>

record user =
  id_user :: string
  socketId :: string
  name :: string
  roomId :: string

definition object_of :: "user \<Rightarrow> object" where
  "object_of u =
     [(''id'', JStr (id_user u)), (''socketId'', JStr (socketId u)),
      (''name'', JStr (name u)), (''roomId'', JStr (roomId u))]"

text \<open>A chat message; its sender is whatever the client has put there.\<close>

record message =
  id_message :: string
  sender :: jsval
  text_message :: string
  timestamp :: real

record room =
  id_room :: string
  users_room :: "object list"
  messages_room :: "message list"

datatype target = ToRoom string | ToSocket string

datatype packet =
    UserJoined object "object list"  \<comment> \<open>\<open>'user-joined', {user, users}\<close>\<close>
  | RoomInfo room                    \<comment> \<open>\<open>'room-info', room\<close>\<close>
  | UserLeft string "object list"    \<comment> \<open>\<open>'user-left', {userId, users}\<close>\<close>
  | SignalOut signal string          \<comment> \<open>\<open>'signal', {signal, from}\<close>\<close>
  | UpdateMediaOut string jsval      \<comment> \<open>\<open>'update-media', {userId, updates}\<close>\<close>
  | NewMessage message               \<comment> \<open>\<open>'new-message', message\<close>\<close>
  | ErrorOut string                  \<comment> \<open>\<open>'error', {message}\<close>\<close>

record emitted =
  target :: target
  recipients :: "string set"
  packet :: packet

text \<open>
  The state of the process: the two global \<open>Map\<close>s, the room membership that socket.io
  keeps (\<open>adapter\<close>: for every room name the ids of the sockets in it; a connected socket
  is in the room named by its own id), and everything emitted so far, each emission with
  the sockets that were in its target room at that moment.
\<close>

record server =
  rooms :: "(string, room) jsmap"
  users :: "(string, user) jsmap"
  adapter :: "string \<Rightarrow> string set"
  sent :: "emitted list"

definition initial :: server where
  "initial = \<lparr>rooms = [], users = [], adapter = (\<lambda>_. {}), sent = []\<rparr>"

definition socket_join :: "string \<Rightarrow> string \<Rightarrow> server \<Rightarrow> server" where
  "socket_join sid r s = s\<lparr>adapter := (adapter s)(r := insert sid (adapter s r))\<rparr>"

definition socket_leave :: "string \<Rightarrow> string \<Rightarrow> server \<Rightarrow> server" where
  "socket_leave sid r s = s\<lparr>adapter := (adapter s)(r := adapter s r - {sid})\<rparr>"

definition io_to_emit :: "string \<Rightarrow> packet \<Rightarrow> server \<Rightarrow> server" where
  "io_to_emit r p s =
     s\<lparr>sent := sent s @ [\<lparr>target = ToRoom r, recipients = adapter s r, packet = p\<rparr>]\<rparr>"

definition socket_emit :: "string \<Rightarrow> packet \<Rightarrow> server \<Rightarrow> server" where
  "socket_emit sid p s =
     s\<lparr>sent := sent s @ [\<lparr>target = ToSocket sid, recipients = {sid}, packet = p\<rparr>]\<rparr>"

text \<open>\<open>x || d\<close> for a string \<open>x\<close> that may be absent: the empty string is falsy too.\<close>

definition or_default :: "string option \<Rightarrow> string \<Rightarrow> string" where
  "or_default x d = (case x of None \<Rightarrow> d | Some v \<Rightarrow> if v = [] then d else v)"

text \<open>\<open>Array.prototype.findIndex\<close>; \<open>None\<close> is the source's \<open>-1\<close>.\<close>

fun findIndex :: "('a \<Rightarrow> bool) \<Rightarrow> 'a list \<Rightarrow> nat option" where
  "findIndex P [] = None"
| "findIndex P (x # xs) = (if P x then Some 0 else map_option Suc (findIndex P xs))"

text \<open>
  The record that \<open>join-room\<close> builds for the new participant. \<open>fresh\<close> is what
  \<open>uuidv4()\<close> would return; it is used when the payload carries no id.
\<close>

definition newUser :: "string \<Rightarrow> string \<Rightarrow> string option \<Rightarrow> string \<Rightarrow> string \<Rightarrow> user" where
  "newUser sid rid uid nm fresh =
     \<lparr>id_user = or_default uid fresh, socketId = sid, name = nm, roomId = rid\<rparr>"

text \<open>
  \<open>join-room\<close>. The branch \<open>None\<close> of the last \<open>case\<close> is the \<open>catch\<close>: \<open>room.users\<close>
  on a room that \<open>rooms.get\<close> did not find.
\<close>

definition join_room ::
  "string \<Rightarrow> string \<Rightarrow> string option \<Rightarrow> string \<Rightarrow> string \<Rightarrow> server \<Rightarrow> server" where
  "join_room sid rid uid nm fresh s =
     (let s1 = s\<lparr>users := map_set (users s) sid (newUser sid rid uid nm fresh)\<rparr>;
          s2 = socket_join sid rid s1;
          s3 = (if \<not> map_has (rooms s2) rid
                then s2\<lparr>rooms := map_set (rooms s2) rid
                                    \<lparr>id_room = rid, users_room = [], messages_room = []\<rparr>\<rparr>
                else s2)
      in case map_get (rooms s3) rid of
           None \<Rightarrow> socket_emit sid (ErrorOut ''Failed to join room'') s3
         | Some room0 \<Rightarrow>
             (let room = room0\<lparr>users_room :=
                           users_room room0 @ [object_of (newUser sid rid uid nm fresh)]\<rparr>;
                  s4 = s3\<lparr>rooms := map_set (rooms s3) rid room\<rparr>;
                  s5 = io_to_emit rid
                         (UserJoined (object_of (newUser sid rid uid nm fresh)) (users_room room)) s4
              in socket_emit sid (RoomInfo room) s5))"

text \<open>\<open>user.id !== userId\<close> for an object of a room's list.\<close>

definition other_id :: "string \<Rightarrow> object \<Rightarrow> bool" where
  "other_id userId u = (field u ''id'' \<noteq> JStr userId)"

definition leave_room :: "string \<Rightarrow> string \<Rightarrow> string \<Rightarrow> server \<Rightarrow> server" where
  "leave_room sid rid userId s =
     (if \<not> map_has (rooms s) rid then s
      else case map_get (rooms s) rid of
             None \<Rightarrow> s
           | Some room0 \<Rightarrow>
               (let room = room0\<lparr>users_room := filter (other_id userId) (users_room room0)\<rparr>;
                    s1 = (if length (users_room room) = 0
                          then s\<lparr>rooms := map_delete (rooms s) rid\<rparr>
                          else s\<lparr>rooms := map_set (rooms s) rid room\<rparr>);
                    s2 = s1\<lparr>users := map_delete (users s1) sid\<rparr>;
                    s3 = socket_leave sid rid s2
                in io_to_emit rid (UserLeft userId (users_room room)) s3))"

definition signal_relay :: "string \<Rightarrow> signal \<Rightarrow> string \<Rightarrow> server \<Rightarrow> server" where
  "signal_relay sid sig to s =
     (case map_get (users s) sid of
        None \<Rightarrow> s
      | Some fromUser \<Rightarrow>
          (case find (\<lambda>u. id_user u = to) (map_values (users s)) of
             None \<Rightarrow> s
           | Some targetUser \<Rightarrow>
               io_to_emit (socketId targetUser) (SignalOut sig (id_user fromUser)) s))"

text \<open>\<open>update-media\<close>; \<open>updates\<close> is any value, and the spread copies whatever fields it has.\<close>

definition update_media :: "string \<Rightarrow> string \<Rightarrow> string \<Rightarrow> jsval \<Rightarrow> server \<Rightarrow> server" where
  "update_media sid rid userId upd s =
     (if \<not> map_has (rooms s) rid then s
      else case map_get (rooms s) rid of
             None \<Rightarrow> s
           | Some room0 \<Rightarrow>
               (case findIndex (\<lambda>u. field u ''id'' = JStr userId) (users_room room0) of
                  None \<Rightarrow> s
                | Some userIndex \<Rightarrow>
                    (let room = room0\<lparr>users_room :=
                                  (users_room room0)
                                    [userIndex := spread (users_room room0 ! userIndex) upd]\<rparr>;
                         s1 = s\<lparr>rooms := map_set (rooms s) rid room\<rparr>
                     in io_to_emit rid (UpdateMediaOut userId upd) s1)))"

text \<open>
  The normalisation in \<open>send-message\<close>: when \<open>typeof message.sender === 'object'\<close> the
  sender is replaced by \<open>message.sender.name || 'Unknown'\<close>, which throws for \<open>null\<close>;
  the other fields of the message are copied.
\<close>

definition normalize :: "message \<Rightarrow> js_error + message" where
  "normalize m =
     (if typeof_object (sender m) then
        (case name_of (sender m) of
           Inl e \<Rightarrow> Inl e
         | Inr nm \<Rightarrow> Inr (m\<lparr>sender := (if truthy nm then nm else JStr ''Unknown'')\<rparr>))
      else Inr m)"

text \<open>\<open>send-message\<close>; the \<open>catch\<close> logs the error and leaves everything as it was.\<close>

definition send_message :: "string \<Rightarrow> string \<Rightarrow> message \<Rightarrow> server \<Rightarrow> server" where
  "send_message sid rid m s =
     (if \<not> map_has (rooms s) rid then s
      else case map_get (rooms s) rid of
             None \<Rightarrow> s
           | Some room0 \<Rightarrow>
               (case normalize m of
                  Inl e \<Rightarrow> s
                | Inr m' \<Rightarrow>
                    (let room = room0\<lparr>messages_room := messages_room room0 @ [m']\<rparr>;
                         s1 = s\<lparr>rooms := map_set (rooms s) rid room\<rparr>
                     in io_to_emit rid (NewMessage m') s1)))"


text \<open>
  \<open>disconnect\<close>. socket.io has taken the socket out of every room before the handler
  runs. \<open>user.roomId\<close> is falsy for the empty string.
\<close>

definition disconnect :: "string \<Rightarrow> server \<Rightarrow> server" where
  "disconnect sid s0 =
     (let s = s0\<lparr>adapter := (\<lambda>r. adapter s0 r - {sid})\<rparr>
      in case map_get (users s) sid of
           None \<Rightarrow> s
         | Some u \<Rightarrow>
             if roomId u = [] then s
             else
               (let s1 =
                      (if map_has (rooms s) (roomId u) then
                         (case map_get (rooms s) (roomId u) of
                            None \<Rightarrow> s
                          | Some room0 \<Rightarrow>
                              (let room = room0\<lparr>users_room :=
                                            filter (other_id (id_user u)) (users_room room0)\<rparr>
                               in if length (users_room room) = 0
                                  then s\<lparr>rooms := map_delete (rooms s) (roomId u)\<rparr>
                                  else io_to_emit (roomId u) (UserLeft (id_user u) (users_room room))
                                         (s\<lparr>rooms := map_set (rooms s) (roomId u) room\<rparr>)))
                       else s)
                in s1\<lparr>users := map_delete (users s1) sid\<rparr>))"

text \<open>A new connection: socket.io puts the socket into the room named by its own id.\<close>

definition connection :: "string \<Rightarrow> server \<Rightarrow> server" where
  "connection sid s = socket_join sid sid s"

datatype event =
    Connect string
  | JoinRoom string string "string option" string string
  | LeaveRoom string string string
  | SignalEv string signal string
  | UpdateMedia string string string jsval
  | SendMessage string string message
  | Disconnect string

fun handle :: "server \<Rightarrow> event \<Rightarrow> server" where
  "handle s (Connect sid) = connection sid s"
| "handle s (JoinRoom sid rid uid nm fresh) = join_room sid rid uid nm fresh s"
| "handle s (LeaveRoom sid rid userId) = leave_room sid rid userId s"
| "handle s (SignalEv sid sig to) = signal_relay sid sig to s"
| "handle s (UpdateMedia sid rid userId upd) = update_media sid rid userId upd s"
| "handle s (SendMessage sid rid m) = send_message sid rid m s"
| "handle s (Disconnect sid) = disconnect sid s"

definition serve :: "server \<Rightarrow> event list \<Rightarrow> server" where
  "serve s es = foldl handle s es"

definition roster :: "server \<Rightarrow> string \<Rightarrow> object list" where
  "roster s rid = (case map_get (rooms s) rid of None \<Rightarrow> [] | Some r \<Rightarrow> users_room r)"

definition history :: "server \<Rightarrow> string \<Rightarrow> message list" where
  "history s rid = (case map_get (rooms s) rid of None \<Rightarrow> [] | Some r \<Rightarrow> messages_room r)"

text \<open>The ids of the participants in the list of a room.\<close>

definition ids :: "server \<Rightarrow> string \<Rightarrow> jsval set" where
  "ids s rid = (\<lambda>u. field u ''id'') ` set (roster s rid)"


subsection \<open>The specification's reading of membership\<close>

text \<open>
  Who has joined a room and has not since left it, computed from the events alone, in the
  words of the specification. The reference keeps, for every room, the participants in it,
  and for every transport what has joined through it: pairs of a participant and a room.
  A join puts the participant into the room and adds the pair to the transport. A leave
  takes the participant out of the room and the pair from the transport that sends it; it
  is a no-op on an unknown room. When a transport disconnects, every participant that has
  joined through it leaves the room it has joined.
\<close>

record membership =
  live :: "string \<Rightarrow> string set"
  joined_by :: "string \<Rightarrow> (string \<times> string) list"

definition nobody :: membership where
  "nobody = \<lparr>live = (\<lambda>r. {}), joined_by = (\<lambda>t. [])\<rparr>"

fun spec_step :: "membership \<Rightarrow> event \<Rightarrow> membership" where
  "spec_step st (JoinRoom sid rid uid nm fresh) =
     st\<lparr>live := (live st)(rid := insert (or_default uid fresh) (live st rid)),
        joined_by := (joined_by st)(sid := joined_by st sid @ [(or_default uid fresh, rid)])\<rparr>"
| "spec_step st (LeaveRoom sid rid userId) =
     (if live st rid = {} then st
      else st\<lparr>live := (live st)(rid := live st rid - {userId}),
              joined_by := (joined_by st)(sid := removeAll (userId, rid) (joined_by st sid))\<rparr>)"
| "spec_step st (Disconnect sid) =
     st\<lparr>live := (\<lambda>r. live st r - fst ` set (filter (\<lambda>p. snd p = r) (joined_by st sid))),
        joined_by := (joined_by st)(sid := [])\<rparr>"
| "spec_step st _ = st"

definition joined_not_left :: "event list \<Rightarrow> string \<Rightarrow> string set" where
  "joined_not_left es rid = live (foldl spec_step nobody es) rid"

text \<open>
  The sequences of joins, leaves and disconnects in which every join names its room, with
  an id that is not the empty string, and comes from a transport through which nothing
  else is joined at that moment, and every leave is sent by the transport through which
  the participant it names has joined the room it names. Connections, signals and chat
  messages may come in between; media updates, which can rewrite any field of a
  participant, may not.
\<close>

fun proper :: "membership \<Rightarrow> event \<Rightarrow> bool" where
  "proper st (Connect sid) = True"
| "proper st (JoinRoom sid rid uid nm fresh) =
     (rid \<noteq> [] \<and> set (joined_by st sid) \<subseteq> {(or_default uid fresh, rid)})"
| "proper st (LeaveRoom sid rid userId) = ((userId, rid) \<in> set (joined_by st sid))"
| "proper st (SignalEv sid sig to) = True"
| "proper st (UpdateMedia sid rid userId upd) = False"
| "proper st (SendMessage sid rid m) = True"
| "proper st (Disconnect sid) = True"

fun orderly :: "membership \<Rightarrow> event list \<Rightarrow> bool" where
  "orderly st [] = True"
| "orderly st (e # es) = (proper st e \<and> orderly (spec_step st e) es)"

subsection \<open>The events that socket.io delivers\<close>






section \<open>Facts about the map operations\<close>

lemma get_set [simp]: "map_get (map_set m k v) k' = (if k' = k then Some v else map_get m k')"
  by (simp add: map_get_def map_set_def update_conv')

lemma get_delete [simp]: "map_get (map_delete m k) k' = (if k' = k then None else map_get m k')"
  by (simp add: map_get_def map_delete_def delete_conv')

lemma has_get: "map_has m k = (map_get m k \<noteq> None)"
  by (simp add: map_has_def map_get_def)

lemma get_Nil [simp]: "map_get [] k = None"
  by (simp add: map_get_def)

lemma delete_absent: "map_get m k = None \<Longrightarrow> map_delete m k = m"
  by (simp add: map_get_def map_delete_def map_of_eq_None_iff)

lemma set_twice: "map_set (map_set m k v) k w = map_set m k w"
  by (simp add: map_set_def)

lemma in_set_map_set: "(k', v') \<in> set (map_set m k v) \<Longrightarrow> (k', v') = (k, v) \<or> (k', v') \<in> set m"
  unfolding map_set_def by (induction m) (auto split: if_splits)

lemma in_set_map_delete: "(k', v') \<in> set (map_delete m k) \<Longrightarrow> (k', v') \<in> set m"
  by (simp add: map_delete_def AList.delete_eq)

lemma get_in_set: "map_get m k = Some v \<Longrightarrow> (k, v) \<in> set m"
  by (simp add: map_get_def map_of_SomeD)


section \<open>The peer lifecycle manager: queueing and replay\<close>

lemma foldl_apply_signal:
  "map_get (peers s) pid = Some pc \<Longrightarrow> \<not> destroyed pc \<Longrightarrow>
   foldl (apply_signal pid) s sigs = s\<lparr>trace := trace s @ map (Signal (peer pc)) sigs\<rparr>"
  by (induction sigs arbitrary: s) (simp_all add: apply_signal_def)

lemma applyPendingSignals_live:
  "map_get (peers s) pid = Some pc \<Longrightarrow> \<not> destroyed pc \<Longrightarrow>
   applyPendingSignals pid s =
     s\<lparr>pendingSignals := map_delete (pendingSignals s) pid,
       trace := trace s @ map (Signal (peer pc)) (queue s pid)\<rparr>"
  by (simp add: applyPendingSignals_def queue_def foldl_apply_signal delete_absent
           split: option.splits)

lemma create_new_supported:
  "create_new pid ini True s =
     (Inr \<lparr>peerId = pid, peer = next_handle s, initiator = ini, destroyed = False\<rparr>,
      s\<lparr>peers := map_set (peers s) pid
                   \<lparr>peerId = pid, peer = next_handle s, initiator = ini, destroyed = False\<rparr>,
        pendingSignals := map_delete (pendingSignals s) pid,
        next_handle := Suc (next_handle s),
        trace := trace s @ Construct (next_handle s) pid ini
                           # map (Signal (next_handle s)) (queue s pid)\<rparr>)"
  by (simp add: create_new_def Let_def applyPendingSignals_live queue_def)

lemma handleSignal_store:
  "\<not> hasPeer s pid \<Longrightarrow>
   handleSignal sig pid s = s\<lparr>pendingSignals := map_set (pendingSignals s) pid (queue s pid @ [sig])\<rparr>"
  by (auto simp add: handleSignal_def hasPeer_def queue_def Let_def has_get set_twice
           split: option.splits)

lemma handleSignal_live:
  "map_get (peers s) pid = Some pc \<Longrightarrow> \<not> destroyed pc \<Longrightarrow>
   handleSignal sig pid s = s\<lparr>trace := trace s @ [Signal (peer pc) sig]\<rparr>"
  by (simp add: handleSignal_def Let_def)

lemma createPeer_creates:
  "\<not> hasPeer s pid \<Longrightarrow>
   createPeer pid ini True s =
     (Inr \<lparr>peerId = pid, peer = next_handle s, initiator = ini, destroyed = False\<rparr>,
      s\<lparr>peers := map_set (map_delete (peers s) pid) pid
                   \<lparr>peerId = pid, peer = next_handle s, initiator = ini, destroyed = False\<rparr>,
        pendingSignals := map_delete (pendingSignals s) pid,
        next_handle := Suc (next_handle s),
        trace := trace s @ Construct (next_handle s) pid ini
                           # map (Signal (next_handle s)) (queue s pid)\<rparr>)"
  by (auto simp add: createPeer_def hasPeer_def has_get create_new_supported queue_def delete_absent
           split: option.splits)

lemma queue_after_signals:
  "\<not> hasPeer s pid \<Longrightarrow>
   \<not> hasPeer (foldl (\<lambda>s g. handleSignal g pid s) s sigs) pid \<and>
   queue (foldl (\<lambda>s g. handleSignal g pid s) s sigs) pid = queue s pid @ sigs \<and>
   peers (foldl (\<lambda>s g. handleSignal g pid s) s sigs) = peers s \<and>
   next_handle (foldl (\<lambda>s g. handleSignal g pid s) s sigs) = next_handle s \<and>
   trace (foldl (\<lambda>s g. handleSignal g pid s) s sigs) = trace s"
proof (induction sigs arbitrary: s)
  case Nil
  then show ?case by simp
next
  case (Cons g gs)
  have step: "\<not> hasPeer (handleSignal g pid s) pid"
    using Cons.prems by (simp add: handleSignal_store hasPeer_def)
  have q: "queue (handleSignal g pid s) pid = queue s pid @ [g]"
    using Cons.prems by (simp add: handleSignal_store queue_def)
  show ?case
    using Cons.IH [OF step] q Cons.prems by (simp add: handleSignal_store)
qed

section \<open>The peer lifecycle manager: what each operation does\<close>

lemma createPeer_existing:
  "map_get (peers s) pid = Some pc \<Longrightarrow> \<not> destroyed pc \<Longrightarrow> createPeer pid ini ok s = (Inr pc, s)"
  by (simp add: createPeer_def has_get)

lemma createPeer_throws:
  "\<not> hasPeer s pid \<Longrightarrow>
   createPeer pid ini False s = (Inl PeerConstructorThrew, s\<lparr>peers := map_delete (peers s) pid\<rparr>)"
  by (auto simp add: createPeer_def hasPeer_def has_get create_new_def delete_absent
           split: option.splits)

lemma removePeer_absent: "\<not> hasPeer s pid \<Longrightarrow> removePeer pid s = s"
  by (simp add: removePeer_def hasPeer_def split: option.splits)

lemma removePeer_live:
  "map_get (peers s) pid = Some pc \<Longrightarrow> \<not> destroyed pc \<Longrightarrow>
   removePeer pid s = s\<lparr>peers := map_delete (peers s) pid,
                        pendingSignals := map_delete (pendingSignals s) pid,
                        trace := trace s @ [Mark pid (peer pc), Destroy (peer pc)]\<rparr>"
  by (simp add: removePeer_def)

lemma on_close_eq:
  "on_close pid s =
     (case map_get (peers s) pid of
        None \<Rightarrow> s
      | Some pc \<Rightarrow> s\<lparr>peers := map_set (peers s) pid (pc\<lparr>destroyed := True\<rparr>),
                     trace := trace s @ [Mark pid (peer pc)]\<rparr>)"
  by (simp add: on_close_def has_get split: option.splits)

lemma foldl_close_one:
  "foldl close_one s es =
     s\<lparr>peers := foldl (\<lambda>m (pid, pc). map_set m pid (pc\<lparr>destroyed := True\<rparr>)) (peers s) es,
       trace := trace s @ concat (map (\<lambda>(pid, pc). [Mark pid (peer pc), Destroy (peer pc)]) es)\<rparr>"
  by (induction es arbitrary: s) (simp_all add: close_one_def split: prod.splits)

lemma closeAllConnections_eq:
  "closeAllConnections s =
     s\<lparr>peers := [], pendingSignals := [],
       trace := trace s @ concat (map (\<lambda>(pid, pc). [Mark pid (peer pc), Destroy (peer pc)]) (peers s))\<rparr>"
  by (simp add: closeAllConnections_def Let_def foldl_close_one)

lemma exec_keeps_invariant:
  assumes "\<forall>X. hasPeer s X \<longrightarrow> map_get (pendingSignals s) X = None"
  shows "\<forall>X. hasPeer (exec s op) X \<longrightarrow> map_get (pendingSignals (exec s op)) X = None"
proof (cases op)
  case (HandleSignal g f)
  show ?thesis
  proof (cases "hasPeer s f")
    case True
    then obtain pc where "map_get (peers s) f = Some pc" "\<not> destroyed pc"
      by (auto simp add: hasPeer_def split: option.splits)
    with assms HandleSignal show ?thesis by (simp add: handleSignal_live hasPeer_def)
  next
    case False
    with assms HandleSignal show ?thesis by (auto simp add: handleSignal_store hasPeer_def)
  qed
next
  case (CreatePeer pid ini ok)
  show ?thesis
  proof (cases "hasPeer s pid")
    case True
    then obtain pc where "map_get (peers s) pid = Some pc" "\<not> destroyed pc"
      by (auto simp add: hasPeer_def split: option.splits)
    with assms CreatePeer show ?thesis by (simp add: createPeer_existing)
  next
    case False
    with assms CreatePeer show ?thesis
      by (cases ok) (auto simp add: createPeer_creates createPeer_throws hasPeer_def
                           split: if_splits)
  qed
next
  case (RemovePeer pid)
  with assms show ?thesis
    by (auto simp add: removePeer_def hasPeer_def split: option.splits if_splits)
next
  case CloseAllConnections
  then show ?thesis by (simp add: closeAllConnections_eq hasPeer_def)
next
  case (PeerClose pid)
  with assms show ?thesis
    by (auto simp add: on_close_eq hasPeer_def split: option.splits if_splits)
next
  case (PeerError pid)
  with assms show ?thesis
    by (auto simp add: on_error_def on_close_eq hasPeer_def split: option.splits if_splits)
qed

lemma run_keeps_invariant:
  "\<forall>X. hasPeer s X \<longrightarrow> map_get (pendingSignals s) X = None \<Longrightarrow>
   \<forall>X. hasPeer (run s ops) X \<longrightarrow> map_get (pendingSignals (run s ops)) X = None"
  unfolding run_def
proof (induction ops arbitrary: s)
  case Nil
  then show ?case by simp
next
  case (Cons op ops)
  from exec_keeps_invariant [OF Cons.prems] have "\<forall>X. hasPeer (exec s op) X \<longrightarrow> map_get (pendingSignals (exec s op)) X = None" .
  from Cons.IH [OF this] show ?case by simp
qed

section \<open>The peer lifecycle manager: handles are never reused\<close>

lemma exec_handles:
  assumes bound: "\<forall>k pc. (k, pc) \<in> set (peers s) \<longrightarrow> n \<le> peer pc \<and> peer pc < next_handle s"
    and low: "n \<le> next_handle s"
  shows "(\<forall>k pc. (k, pc) \<in> set (peers (exec s op)) \<longrightarrow>
            n \<le> peer pc \<and> peer pc < next_handle (exec s op))
       \<and> n \<le> next_handle (exec s op)
       \<and> (\<exists>tr. trace (exec s op) = trace s @ tr \<and> (\<forall>h g. Signal h g \<in> set tr \<longrightarrow> n \<le> h))"
proof (cases op)
  case (HandleSignal g f)
  show ?thesis
  proof (cases "hasPeer s f")
    case True
    then obtain pc where pc: "map_get (peers s) f = Some pc" "\<not> destroyed pc"
      by (auto simp add: hasPeer_def split: option.splits)
    from pc(1) bound have "n \<le> peer pc" by (blast dest: get_in_set)
    with pc bound low HandleSignal show ?thesis by (simp add: handleSignal_live)
  next
    case False
    with bound low HandleSignal show ?thesis by (simp add: handleSignal_store)
  qed
next
  case (CreatePeer pid ini ok)
  show ?thesis
  proof (cases "hasPeer s pid")
    case True
    then obtain pc where "map_get (peers s) pid = Some pc" "\<not> destroyed pc"
      by (auto simp add: hasPeer_def split: option.splits)
    with bound low CreatePeer show ?thesis by (simp add: createPeer_existing)
  next
    case False
    show ?thesis
    proof (cases ok)
      case True
      with False bound low CreatePeer show ?thesis
        by (auto simp add: createPeer_creates less_Suc_eq
                 dest!: in_set_map_set in_set_map_delete)
    next
      case no: False
      with False bound low CreatePeer show ?thesis
        by (auto simp add: createPeer_throws dest!: in_set_map_delete)
    qed
  qed
next
  case (RemovePeer pid)
  show ?thesis
  proof (cases "hasPeer s pid")
    case True
    then obtain pc where "map_get (peers s) pid = Some pc" "\<not> destroyed pc"
      by (auto simp add: hasPeer_def split: option.splits)
    with bound low RemovePeer show ?thesis
      by (auto simp add: removePeer_live dest!: in_set_map_delete)
  next
    case False
    with bound low RemovePeer show ?thesis by (simp add: removePeer_absent)
  qed
next
  case CloseAllConnections
  with bound low show ?thesis by (auto simp add: closeAllConnections_eq)
next
  case (PeerClose pid)
  show ?thesis
  proof (cases "map_get (peers s) pid")
    case None
    with bound low PeerClose show ?thesis by (simp add: on_close_eq)
  next
    case (Some pc)
    from Some bound have "n \<le> peer pc \<and> peer pc < next_handle s" by (blast dest: get_in_set)
    with Some bound low PeerClose show ?thesis
      by (auto simp add: on_close_eq dest!: in_set_map_set)
  qed
next
  case (PeerError pid)
  show ?thesis
  proof (cases "map_get (peers s) pid")
    case None
    with bound low PeerError show ?thesis by (simp add: on_error_def on_close_eq)
  next
    case (Some pc)
    from Some bound have "n \<le> peer pc \<and> peer pc < next_handle s" by (blast dest: get_in_set)
    with Some bound low PeerError show ?thesis
      by (auto simp add: on_error_def on_close_eq dest!: in_set_map_set)
  qed
qed

lemma run_handles:
  "\<forall>k pc. (k, pc) \<in> set (peers s) \<longrightarrow> n \<le> peer pc \<and> peer pc < next_handle s \<Longrightarrow>
   n \<le> next_handle s \<Longrightarrow>
   (\<forall>k pc. (k, pc) \<in> set (peers (run s ops)) \<longrightarrow>
       n \<le> peer pc \<and> peer pc < next_handle (run s ops))
   \<and> n \<le> next_handle (run s ops)
   \<and> (\<exists>tr. trace (run s ops) = trace s @ tr \<and> (\<forall>h g. Signal h g \<in> set tr \<longrightarrow> n \<le> h))"
  unfolding run_def
proof (induction ops arbitrary: s)
  case Nil
  then show ?case by simp
next
  case (Cons op ops)
  from exec_handles [OF Cons.prems, of op]
  obtain tr where step:
    "\<forall>k pc. (k, pc) \<in> set (peers (exec s op)) \<longrightarrow> n \<le> peer pc \<and> peer pc < next_handle (exec s op)"
    "n \<le> next_handle (exec s op)"
    "trace (exec s op) = trace s @ tr" "\<forall>h g. Signal h g \<in> set tr \<longrightarrow> n \<le> h"
    by blast
  from Cons.IH [OF step(1) step(2)]
  obtain tr' where rest:
    "\<forall>k pc. (k, pc) \<in> set (peers (foldl exec (exec s op) ops)) \<longrightarrow>
        n \<le> peer pc \<and> peer pc < next_handle (foldl exec (exec s op) ops)"
    "n \<le> next_handle (foldl exec (exec s op) ops)"
    "trace (foldl exec (exec s op) ops) = trace (exec s op) @ tr'"
    "\<forall>h g. Signal h g \<in> set tr' \<longrightarrow> n \<le> h"
    by blast
  have "trace (foldl exec s (op # ops)) = trace s @ (tr @ tr')"
    using step(3) rest(3) by simp
  moreover have "\<forall>h g. Signal h g \<in> set (tr @ tr') \<longrightarrow> n \<le> h"
    using step(4) rest(4) by auto
  ultimately show ?case using rest(1,2) by (simp del: append_assoc) blast
qed

section \<open>The peer lifecycle manager: a destroyed entry stays\<close>

lemma destroyed_fixed: "destroyed pc \<Longrightarrow> pc\<lparr>destroyed := True\<rparr> = pc"
  by (cases pc) simp

lemma exec_keeps_destroyed_entry:
  assumes entry: "map_get (peers s) X = Some pc" "destroyed pc"
    and other: "op \<noteq> CloseAllConnections" "\<forall>ini ok. op \<noteq> CreatePeer X ini ok"
  shows "map_get (peers (exec s op)) X = Some pc \<and> (\<exists>more. queue (exec s op) X = queue s X @ more)"
proof (cases op)
  case (HandleSignal g f)
  show ?thesis
  proof (cases "hasPeer s f")
    case True
    then obtain pc' where "map_get (peers s) f = Some pc'" "\<not> destroyed pc'"
      by (auto simp add: hasPeer_def split: option.splits)
    with entry HandleSignal show ?thesis by (simp add: handleSignal_live queue_def)
  next
    case False
    with entry HandleSignal show ?thesis by (simp add: handleSignal_store queue_def)
  qed
next
  case (CreatePeer pid ini ok)
  with other have ne: "pid \<noteq> X" by blast
  show ?thesis
  proof (cases "hasPeer s pid")
    case True
    then obtain pc' where "map_get (peers s) pid = Some pc'" "\<not> destroyed pc'"
      by (auto simp add: hasPeer_def split: option.splits)
    with entry CreatePeer show ?thesis by (simp add: createPeer_existing)
  next
    case False
    with entry ne CreatePeer show ?thesis
      by (cases ok) (simp_all add: createPeer_creates createPeer_throws queue_def)
  qed
next
  case (RemovePeer pid)
  show ?thesis
  proof (cases "hasPeer s pid")
    case True
    then obtain pc' where live: "map_get (peers s) pid = Some pc'" "\<not> destroyed pc'"
      by (auto simp add: hasPeer_def split: option.splits)
    with entry have "pid \<noteq> X" by auto
    with live entry RemovePeer show ?thesis by (simp add: removePeer_live queue_def)
  next
    case False
    with entry RemovePeer show ?thesis by (simp add: removePeer_absent)
  qed
next
  case CloseAllConnections
  with other show ?thesis by simp
next
  case (PeerClose pid)
  with entry show ?thesis
    by (auto simp add: on_close_eq queue_def destroyed_fixed split: option.splits)
next
  case (PeerError pid)
  with entry show ?thesis
    by (auto simp add: on_error_def on_close_eq queue_def destroyed_fixed split: option.splits)
qed


section \<open>Properties of the peer lifecycle manager\<close>

text \<open>
  C1. For every peer id \<open>X\<close>: a signal for \<open>X\<close> that arrives while \<open>X\<close> has no live
  (non-destroyed) entry is appended to \<open>X\<close>'s pending queue by \<open>handleSignal\<close>, which
  changes nothing else, so no connection is created (first conjunct). Whenever
  \<open>createPeer\<close> creates a connection for \<open>X\<close>, that is, \<open>X\<close> has no live entry and
  \<open>new Peer\<close> returns, every queued signal is passed to the new connection in arrival
  order, right after its construction, and \<open>X\<close>'s queue is deleted (second conjunct). The
  two together: signals that arrive one after the other before the connection exists are
  all replayed, behind those already queued, in the order of their arrival (third and
  fourth conjunct).
\<close>

theorem early_signals_queued_then_replayed:
  assumes "\<not> hasPeer s X"
  shows "handleSignal sig X s
           = s\<lparr>pendingSignals := map_set (pendingSignals s) X (queue s X @ [sig])\<rparr>
       \<and> createPeer X ini True s
           = (Inr \<lparr>peerId = X, peer = next_handle s, initiator = ini, destroyed = False\<rparr>,
              s\<lparr>peers := map_set (map_delete (peers s) X) X
                           \<lparr>peerId = X, peer = next_handle s, initiator = ini, destroyed = False\<rparr>,
                pendingSignals := map_delete (pendingSignals s) X,
                next_handle := Suc (next_handle s),
                trace := trace s @ Construct (next_handle s) X ini
                                   # map (Signal (next_handle s)) (queue s X)\<rparr>)
       \<and> trace (snd (createPeer X ini True (foldl (\<lambda>s g. handleSignal g X s) s sigs)))
           = trace s @ Construct (next_handle s) X ini
                       # map (Signal (next_handle s)) (queue s X @ sigs)
       \<and> map_get (pendingSignals
            (snd (createPeer X ini True (foldl (\<lambda>s g. handleSignal g X s) s sigs)))) X = None"
proof (intro conjI)
  show "handleSignal sig X s
          = s\<lparr>pendingSignals := map_set (pendingSignals s) X (queue s X @ [sig])\<rparr>"
    using assms by (rule handleSignal_store)
next
  show "createPeer X ini True s
          = (Inr \<lparr>peerId = X, peer = next_handle s, initiator = ini, destroyed = False\<rparr>,
             s\<lparr>peers := map_set (map_delete (peers s) X) X
                          \<lparr>peerId = X, peer = next_handle s, initiator = ini, destroyed = False\<rparr>,
               pendingSignals := map_delete (pendingSignals s) X,
               next_handle := Suc (next_handle s),
               trace := trace s @ Construct (next_handle s) X ini
                                  # map (Signal (next_handle s)) (queue s X)\<rparr>)"
    using assms by (rule createPeer_creates)
next
  let ?s' = "foldl (\<lambda>s g. handleSignal g X s) s sigs"
  from queue_after_signals [OF assms, of sigs]
  have q: "\<not> hasPeer ?s' X" "queue ?s' X = queue s X @ sigs"
          "next_handle ?s' = next_handle s" "trace ?s' = trace s"
    by simp_all
  show "trace (snd (createPeer X ini True ?s'))
          = trace s @ Construct (next_handle s) X ini
                      # map (Signal (next_handle s)) (queue s X @ sigs)"
    using q by (simp add: createPeer_creates)
  show "map_get (pendingSignals (snd (createPeer X ini True ?s'))) X = None"
    using q by (simp add: createPeer_creates)
qed

theorem early_signals_queued_then_replayed_witness:
  "\<not> hasPeer constructor ''bob''
   \<and> handleSignal ''offer'' ''bob'' constructor
       = constructor\<lparr>pendingSignals := [(''bob'', [''offer''])]\<rparr>
   \<and> trace (snd (createPeer ''bob'' False True
              (foldl (\<lambda>s g. handleSignal g ''bob'' s) constructor [''offer'', ''candidate''])))
       = [Construct 0 ''bob'' False, Signal 0 ''offer'', Signal 0 ''candidate'']"
  using early_signals_queued_then_replayed
          [of constructor "''bob''" "''offer''" False "[''offer'', ''candidate'']"]
  by (simp add: constructor_def hasPeer_def queue_def createPeer_def create_new_def
        applyPendingSignals_def apply_signal_def handleSignal_def map_get_def map_has_def
        map_set_def map_delete_def Let_def)

text \<open>
  C4. In every state that the manager reaches from its construction by any sequence of
  \<open>handleSignal\<close>, \<open>createPeer\<close>, \<open>removePeer\<close>, \<open>closeAllConnections\<close> and the \<open>close\<close> and
  \<open>error\<close> events of its connections, no peer id has a live entry and a pending queue at
  the same time (first conjunct; the queue is not even present, let alone non-empty).
  Creating the connection drains and deletes the queue in one step: after \<open>createPeer\<close>
  the peer is live and has no queue, and the connection has been constructed and then
  given every queued signal, in the order of the queue, and nothing else has happened
  (second conjunct). A signal for a live connection is passed to it and the queues stay
  as they are (third conjunct).
\<close>

theorem live_peer_has_no_pending_queue:
  "\<not> (hasPeer (run constructor ops) X \<and> map_get (pendingSignals (run constructor ops)) X \<noteq> None)
   \<and> (\<not> hasPeer s X \<longrightarrow>
        hasPeer (snd (createPeer X ini True s)) X
        \<and> map_get (pendingSignals (snd (createPeer X ini True s))) X = None
        \<and> trace (snd (createPeer X ini True s))
            = trace s @ Construct (next_handle s) X ini
                        # map (Signal (next_handle s)) (queue s X))
   \<and> (hasPeer s X \<longrightarrow>
        (\<exists>pc. map_get (peers s) X = Some pc
           \<and> handleSignal sig X s = s\<lparr>trace := trace s @ [Signal (peer pc) sig]\<rparr>))"
proof (intro conjI impI)
  have "\<forall>X. hasPeer constructor X \<longrightarrow> map_get (pendingSignals constructor) X = None"
    by (simp add: constructor_def hasPeer_def)
  from run_keeps_invariant [OF this, of ops]
  show "\<not> (hasPeer (run constructor ops) X \<and> map_get (pendingSignals (run constructor ops)) X \<noteq> None)"
    by simp
next
  assume "\<not> hasPeer s X"
  then show "hasPeer (snd (createPeer X ini True s)) X"
    by (simp add: createPeer_creates hasPeer_def)
next
  assume "\<not> hasPeer s X"
  then show "map_get (pendingSignals (snd (createPeer X ini True s))) X = None"
    by (simp add: createPeer_creates)
next
  assume "\<not> hasPeer s X"
  then show "trace (snd (createPeer X ini True s))
            = trace s @ Construct (next_handle s) X ini
                        # map (Signal (next_handle s)) (queue s X)"
    by (simp add: createPeer_creates)
next
  assume "hasPeer s X"
  then obtain pc where "map_get (peers s) X = Some pc" "\<not> destroyed pc"
    by (auto simp add: hasPeer_def split: option.splits)
  then show "\<exists>pc. map_get (peers s) X = Some pc
           \<and> handleSignal sig X s = s\<lparr>trace := trace s @ [Signal (peer pc) sig]\<rparr>"
    by (simp add: handleSignal_live)
qed

theorem live_peer_has_no_pending_queue_witness:
  "hasPeer (run constructor [HandleSignal ''offer'' ''bob'', CreatePeer ''bob'' False True]) ''bob''
   \<and> map_get (pendingSignals
        (run constructor [HandleSignal ''offer'' ''bob'', CreatePeer ''bob'' False True])) ''bob'' = None
   \<and> \<not> hasPeer (run constructor [HandleSignal ''offer'' ''bob'', HandleSignal ''candidate'' ''bob''])
          ''bob''
   \<and> pendingSignals (run constructor [HandleSignal ''offer'' ''bob'', HandleSignal ''candidate'' ''bob''])
       = [(''bob'', [''offer'', ''candidate''])]
   \<and> hasPeer (snd (createPeer ''bob'' False True
        (run constructor [HandleSignal ''offer'' ''bob'', HandleSignal ''candidate'' ''bob'']))) ''bob''
   \<and> pendingSignals (snd (createPeer ''bob'' False True
        (run constructor [HandleSignal ''offer'' ''bob'', HandleSignal ''candidate'' ''bob''])))
       = []
   \<and> trace (snd (createPeer ''bob'' False True
        (run constructor [HandleSignal ''offer'' ''bob'', HandleSignal ''candidate'' ''bob''])))
       = [Construct 0 ''bob'' False, Signal 0 ''offer'', Signal 0 ''candidate'']
   \<and> handleSignal ''answer'' ''bob'' (snd (createPeer ''bob'' False True constructor))
       = (snd (createPeer ''bob'' False True constructor))
           \<lparr>trace := [Construct 0 ''bob'' False, Signal 0 ''answer'']\<rparr>"
  using live_peer_has_no_pending_queue
          [of "[HandleSignal ''offer'' ''bob'', CreatePeer ''bob'' False True]" "''bob''"
              "run constructor [HandleSignal ''offer'' ''bob'', HandleSignal ''candidate'' ''bob'']"
              False "''answer''"]
        live_peer_has_no_pending_queue
          [of "[]" "''bob''" "snd (createPeer ''bob'' False True constructor)" False "''answer''"]
  by (simp add: run_def constructor_def hasPeer_def queue_def createPeer_def create_new_def
        applyPendingSignals_def apply_signal_def handleSignal_def map_get_def map_has_def map_set_def
        map_delete_def Let_def)

text \<open>
  C8, as stated: \<open>closeAllConnections\<close> first marks every entry destroyed and only then
  destroys each underlying connection. The \<open>forEach\<close> of the source does both in one
  turn per entry. With two live entries the connection of the first is destroyed while the
  second entry is still unmarked: the flag of \<open>bob\<close> is written after \<open>destroy\<close> was
  called on the connection of \<open>ann\<close>.
\<close>

theorem bulk_teardown_all_marks_first_counterexample:
  "\<not> marks_precede_destroys
       (trace (closeAllConnections
                 (run constructor [CreatePeer ''ann'' True True, CreatePeer ''bob'' True True])))
   \<and> trace (closeAllConnections
              (run constructor [CreatePeer ''ann'' True True, CreatePeer ''bob'' True True]))
       = [Construct 0 ''ann'' True, Construct 1 ''bob'' True,
          Mark ''ann'' 0, Destroy 0, Mark ''bob'' 1, Destroy 1]"
  by (simp add: marks_precede_destroys_def closeAllConnections_def close_one_def run_def
        constructor_def createPeer_def create_new_def applyPendingSignals_def map_get_def
        map_has_def map_set_def map_delete_def Let_def)


text \<open>
  C8, amended: \<open>closeAllConnections\<close> goes through the peer map in insertion order and,
  for each entry in turn, marks the entry destroyed and then destroys its underlying
  connection (first conjunct). After it returns, the peer map and the pending-signal queues
  are empty (second and third conjunct). Whatever happens later, no signal is passed to a
  connection of the old map: every \<open>peer.signal\<close> call recorded after the teardown is on
  a handle that no entry of the old map holds (fourth conjunct). The manager is in a state
  it can reach from its construction.
\<close>

theorem bulk_teardown:
  assumes "s = run constructor before"
  shows "trace (closeAllConnections s)
           = trace s @ concat (map (\<lambda>(pid, pc). [Mark pid (peer pc), Destroy (peer pc)]) (peers s))
       \<and> peers (closeAllConnections s) = []
       \<and> pendingSignals (closeAllConnections s) = []
       \<and> (\<forall>h g. Signal h g \<in> set (drop (length (trace (closeAllConnections s)))
                                      (trace (run (closeAllConnections s) later)))
                 \<longrightarrow> h \<notin> peer ` snd ` set (peers s))"
proof -
  have "\<forall>k pc. (k, pc) \<in> set (peers constructor) \<longrightarrow> 0 \<le> peer pc \<and> peer pc < next_handle constructor"
    by (simp add: constructor_def)
  from run_handles [OF this, of before] assms
  have old: "\<forall>k pc. (k, pc) \<in> set (peers s) \<longrightarrow> peer pc < next_handle s"
    by simp
  let ?c = "closeAllConnections s"
  have "\<forall>k pc. (k, pc) \<in> set (peers ?c) \<longrightarrow> next_handle s \<le> peer pc \<and> peer pc < next_handle ?c"
    by (simp add: closeAllConnections_eq)
  moreover have "next_handle s \<le> next_handle ?c"
    by (simp add: closeAllConnections_eq)
  ultimately obtain tr where tr: "trace (run ?c later) = trace ?c @ tr"
      "\<forall>h g. Signal h g \<in> set tr \<longrightarrow> next_handle s \<le> h"
    using run_handles [of ?c "next_handle s" later] by blast
  have "\<forall>h g. Signal h g \<in> set (drop (length (trace ?c)) (trace (run ?c later)))
               \<longrightarrow> h \<notin> peer ` snd ` set (peers s)"
  proof (intro allI impI)
    fix h g
    assume "Signal h g \<in> set (drop (length (trace ?c)) (trace (run ?c later)))"
    with tr(1) have "Signal h g \<in> set tr" by simp
    with tr(2) have "next_handle s \<le> h" by blast
    with old show "h \<notin> peer ` snd ` set (peers s)" by force
  qed
  then show ?thesis by (simp add: closeAllConnections_eq)
qed

theorem bulk_teardown_witness:
  "trace (closeAllConnections
            (run constructor [CreatePeer ''ann'' True True, CreatePeer ''bob'' True True]))
     = [Construct 0 ''ann'' True, Construct 1 ''bob'' True,
        Mark ''ann'' 0, Destroy 0, Mark ''bob'' 1, Destroy 1]
   \<and> peers (closeAllConnections
              (run constructor [CreatePeer ''ann'' True True, CreatePeer ''bob'' True True])) = []
   \<and> Signal 2 ''offer'' \<in> set (drop 6 (trace (run (closeAllConnections
              (run constructor [CreatePeer ''ann'' True True, CreatePeer ''bob'' True True]))
              [HandleSignal ''offer'' ''ann'', CreatePeer ''ann'' False True])))
   \<and> 2 \<notin> peer ` snd ` set (peers
              (run constructor [CreatePeer ''ann'' True True, CreatePeer ''bob'' True True]))"
  using bulk_teardown
          [of "run constructor [CreatePeer ''ann'' True True, CreatePeer ''bob'' True True]"
              "[CreatePeer ''ann'' True True, CreatePeer ''bob'' True True]"
              "[HandleSignal ''offer'' ''ann'', CreatePeer ''ann'' False True]"]
  by (simp add: closeAllConnections_def close_one_def run_def handleSignal_def
        constructor_def createPeer_def create_new_def applyPendingSignals_def apply_signal_def
        map_get_def map_has_def map_set_def map_delete_def Let_def)


text \<open>
  C10, as stated: a destroyed entry and its queued signals are purged only by a later
  \<open>createPeer\<close> for the same peer id. \<open>closeAllConnections\<close> purges them too: it clears
  the peer map and the queues whatever the flags say.
\<close>

theorem removePeer_skips_destroyed_entry_counterexample:
  "map_get (peers (run constructor
       [CreatePeer ''bob'' True True, PeerClose ''bob'', HandleSignal ''offer'' ''bob'']))
     ''bob'' = Some \<lparr>peerId = ''bob'', peer = 0, initiator = True, destroyed = True\<rparr>
   \<and> map_get (pendingSignals (run constructor
       [CreatePeer ''bob'' True True, PeerClose ''bob'', HandleSignal ''offer'' ''bob'']))
     ''bob'' = Some [''offer'']
   \<and> map_get (peers (closeAllConnections (run constructor
       [CreatePeer ''bob'' True True, PeerClose ''bob'', HandleSignal ''offer'' ''bob''])))
     ''bob'' = None
   \<and> map_get (pendingSignals (closeAllConnections (run constructor
       [CreatePeer ''bob'' True True, PeerClose ''bob'', HandleSignal ''offer'' ''bob''])))
     ''bob'' = None"
  by (simp add: closeAllConnections_def close_one_def run_def handleSignal_def on_close_def
        constructor_def createPeer_def create_new_def applyPendingSignals_def
        map_get_def map_has_def map_set_def map_delete_def Let_def)


text \<open>
  C10, amended: \<open>removePeer\<close> is a no-op when the peer id has no entry or its entry is
  already marked destroyed: the whole state is left as it is (first conjunct). A destroyed
  entry stays in the map, and the signals queued for its peer id stay queued, through every
  operation and connection event other than \<open>createPeer\<close> for the same peer id and
  \<open>closeAllConnections\<close> (second conjunct). \<open>createPeer\<close> for the same peer id drops the
  destroyed entry; when \<open>new Peer\<close> returns it stores a live entry, replays the queue on the
  new connection and deletes the queue, and when \<open>new Peer\<close> throws the queue is kept
  (third conjunct). \<open>closeAllConnections\<close> purges entry and queue (last two conjuncts).
\<close>

theorem removePeer_skips_destroyed_entry:
  "(\<not> hasPeer s X \<longrightarrow> removePeer X s = s)
   \<and> (map_get (peers s) X = Some pc \<and> destroyed pc
        \<and> op \<noteq> CloseAllConnections \<and> (\<forall>ini ok. op \<noteq> CreatePeer X ini ok)
      \<longrightarrow> map_get (peers (exec s op)) X = Some pc
          \<and> (\<exists>more. queue (exec s op) X = queue s X @ more))
   \<and> (map_get (peers s) X = Some pc \<and> destroyed pc
      \<longrightarrow> map_get (peers (snd (createPeer X ini True s))) X
            = Some \<lparr>peerId = X, peer = next_handle s, initiator = ini, destroyed = False\<rparr>
          \<and> map_get (pendingSignals (snd (createPeer X ini True s))) X = None
          \<and> trace (snd (createPeer X ini True s))
              = trace s @ Construct (next_handle s) X ini
                          # map (Signal (next_handle s)) (queue s X)
          \<and> map_get (peers (snd (createPeer X ini False s))) X = None
          \<and> pendingSignals (snd (createPeer X ini False s)) = pendingSignals s)
   \<and> map_get (peers (closeAllConnections s)) X = None
   \<and> map_get (pendingSignals (closeAllConnections s)) X = None"
proof (intro conjI impI)
  assume "\<not> hasPeer s X"
  then show "removePeer X s = s" by (rule removePeer_absent)
next
  assume "map_get (peers s) X = Some pc \<and> destroyed pc
        \<and> op \<noteq> CloseAllConnections \<and> (\<forall>ini ok. op \<noteq> CreatePeer X ini ok)"
  then have keep: "map_get (peers (exec s op)) X = Some pc
      \<and> (\<exists>more. queue (exec s op) X = queue s X @ more)"
    using exec_keeps_destroyed_entry [of s X pc op] by blast
  from keep show "map_get (peers (exec s op)) X = Some pc" ..
  from keep show "\<exists>more. queue (exec s op) X = queue s X @ more" ..
next
  assume d: "map_get (peers s) X = Some pc \<and> destroyed pc"
  then have n: "\<not> hasPeer s X" by (simp add: hasPeer_def)
  show "map_get (peers (snd (createPeer X ini True s))) X
            = Some \<lparr>peerId = X, peer = next_handle s, initiator = ini, destroyed = False\<rparr>"
    using n by (simp add: createPeer_creates)
  show "map_get (pendingSignals (snd (createPeer X ini True s))) X = None"
    using n by (simp add: createPeer_creates)
  show "trace (snd (createPeer X ini True s))
              = trace s @ Construct (next_handle s) X ini
                          # map (Signal (next_handle s)) (queue s X)"
    using n by (simp add: createPeer_creates)
  show "map_get (peers (snd (createPeer X ini False s))) X = None"
    using n by (simp add: createPeer_throws)
  show "pendingSignals (snd (createPeer X ini False s)) = pendingSignals s"
    using n by (simp add: createPeer_throws)
next
  show "map_get (peers (closeAllConnections s)) X = None"
    by (simp add: closeAllConnections_eq)
  show "map_get (pendingSignals (closeAllConnections s)) X = None"
    by (simp add: closeAllConnections_eq)
qed

theorem removePeer_skips_destroyed_entry_witness:
  "\<not> hasPeer (run constructor
       [CreatePeer ''bob'' True True, PeerClose ''bob'', HandleSignal ''offer'' ''bob'']) ''bob''
   \<and> removePeer ''bob'' (run constructor
       [CreatePeer ''bob'' True True, PeerClose ''bob'', HandleSignal ''offer'' ''bob''])
     = \<lparr>peers = [(''bob'', \<lparr>peerId = ''bob'', peer = 0, initiator = True, destroyed = True\<rparr>)],
        pendingSignals = [(''bob'', [''offer''])], next_handle = 1,
        trace = [Construct 0 ''bob'' True, Mark ''bob'' 0]\<rparr>
   \<and> RemovePeer ''bob'' \<noteq> CloseAllConnections
   \<and> trace (snd (createPeer ''bob'' False True (run constructor
       [CreatePeer ''bob'' True True, PeerClose ''bob'', HandleSignal ''offer'' ''bob''])))
     = [Construct 0 ''bob'' True, Mark ''bob'' 0, Construct 1 ''bob'' False, Signal 1 ''offer'']"
  using removePeer_skips_destroyed_entry
          [of "run constructor
                 [CreatePeer ''bob'' True True, PeerClose ''bob'', HandleSignal ''offer'' ''bob'']"
              "''bob''" "\<lparr>peerId = ''bob'', peer = 0, initiator = True, destroyed = True\<rparr>"
              "RemovePeer ''bob''" False]
  by (simp add: closeAllConnections_def close_one_def run_def handleSignal_def on_close_def
        removePeer_def hasPeer_def queue_def
        constructor_def createPeer_def create_new_def applyPendingSignals_def apply_signal_def
        map_get_def map_has_def map_set_def map_delete_def Let_def)


section \<open>The signaling server: what each handler does\<close>

lemma room_rebuild:
  "r\<lparr>users_room := us\<rparr> = \<lparr>id_room = id_room r, users_room = us, messages_room = messages_room r\<rparr>"
  by (cases r) simp

lemma join_room_eq:
  "join_room sid rid uid nm fresh s =
     s\<lparr>rooms := map_set (rooms s) rid
                  \<lparr>id_room = (case map_get (rooms s) rid of None \<Rightarrow> rid | Some r \<Rightarrow> id_room r),
                   users_room = roster s rid @ [object_of (newUser sid rid uid nm fresh)],
                   messages_room = history s rid\<rparr>,
       users := map_set (users s) sid (newUser sid rid uid nm fresh),
       adapter := (adapter s)(rid := insert sid (adapter s rid)),
       sent := sent s @
         [\<lparr>target = ToRoom rid, recipients = insert sid (adapter s rid),
           packet = UserJoined (object_of (newUser sid rid uid nm fresh))
                      (roster s rid @ [object_of (newUser sid rid uid nm fresh)])\<rparr>,
          \<lparr>target = ToSocket sid, recipients = {sid},
           packet = RoomInfo
                      \<lparr>id_room = (case map_get (rooms s) rid of None \<Rightarrow> rid | Some r \<Rightarrow> id_room r),
                       users_room = roster s rid @ [object_of (newUser sid rid uid nm fresh)],
                       messages_room = history s rid\<rparr>\<rparr>]\<rparr>"
  by (cases "map_get (rooms s) rid")
     (simp_all add: join_room_def Let_def socket_join_def io_to_emit_def socket_emit_def
        has_get roster_def history_def set_twice room_rebuild)

lemma leave_room_unknown: "\<not> map_has (rooms s) rid \<Longrightarrow> leave_room sid rid userId s = s"
  by (simp add: leave_room_def)

lemma leave_room_known:
  "map_get (rooms s) rid = Some r \<Longrightarrow>
   leave_room sid rid userId s =
     s\<lparr>rooms := (if filter (other_id userId) (users_room r) = []
                 then map_delete (rooms s) rid
                 else map_set (rooms s) rid
                        (r\<lparr>users_room := filter (other_id userId) (users_room r)\<rparr>)),
       users := map_delete (users s) sid,
       adapter := (adapter s)(rid := adapter s rid - {sid}),
       sent := sent s @
         [\<lparr>target = ToRoom rid, recipients = adapter s rid - {sid},
           packet = UserLeft userId (filter (other_id userId) (users_room r))\<rparr>]\<rparr>"
  by (simp add: leave_room_def Let_def socket_leave_def io_to_emit_def has_get)

lemma findIndex_Some:
  "findIndex P xs = Some i \<Longrightarrow> i < length xs \<and> P (xs ! i) \<and> (\<forall>j<i. \<not> P (xs ! j))"
proof (induction xs arbitrary: i)
  case Nil
  then show ?case by simp
next
  case (Cons x xs)
  show ?case
  proof (cases "P x")
    case True
    with Cons.prems show ?thesis by simp
  next
    case False
    with Cons.prems obtain k where k: "findIndex P xs = Some k" "i = Suc k"
      by auto
    from Cons.IH [OF k(1)] False k(2) show ?thesis
      by (auto simp add: less_Suc_eq_0_disj)
  qed
qed

lemma findIndex_None: "(findIndex P xs = None) = (\<forall>x\<in>set xs. \<not> P x)"
  by (induction xs) auto

lemma update_media_skip:
  "findIndex (\<lambda>u. field u ''id'' = JStr userId) (roster s rid) = None \<Longrightarrow>
   update_media sid rid userId upd s = s"
  by (simp add: update_media_def roster_def has_get split: option.splits)

lemma update_media_known:
  "map_get (rooms s) rid = Some r \<Longrightarrow>
   findIndex (\<lambda>u. field u ''id'' = JStr userId) (users_room r) = Some i \<Longrightarrow>
   update_media sid rid userId upd s =
     s\<lparr>rooms := map_set (rooms s) rid
                  (r\<lparr>users_room := (users_room r)[i := spread (users_room r ! i) upd]\<rparr>),
       sent := sent s @
         [\<lparr>target = ToRoom rid, recipients = adapter s rid, packet = UpdateMediaOut userId upd\<rparr>]\<rparr>"
  by (simp add: update_media_def Let_def io_to_emit_def has_get)

lemma send_message_unknown: "\<not> map_has (rooms s) rid \<Longrightarrow> send_message sid rid m s = s"
  by (simp add: send_message_def)

lemma send_message_thrown:
  "normalize m = Inl e \<Longrightarrow> send_message sid rid m s = s"
  by (simp add: send_message_def split: option.splits)

lemma send_message_known:
  "map_get (rooms s) rid = Some r \<Longrightarrow> normalize m = Inr m' \<Longrightarrow>
   send_message sid rid m s =
     s\<lparr>rooms := map_set (rooms s) rid (r\<lparr>messages_room := messages_room r @ [m']\<rparr>),
       sent := sent s @
         [\<lparr>target = ToRoom rid, recipients = adapter s rid, packet = NewMessage m'\<rparr>]\<rparr>"
  by (simp add: send_message_def Let_def io_to_emit_def has_get)

lemma disconnect_eq:
  "disconnect sid s =
     (case map_get (users s) sid of
        None \<Rightarrow> s\<lparr>adapter := (\<lambda>r. adapter s r - {sid})\<rparr>
      | Some u \<Rightarrow>
          if roomId u = [] then s\<lparr>adapter := (\<lambda>r. adapter s r - {sid})\<rparr>
          else
            (case map_get (rooms s) (roomId u) of
               None \<Rightarrow> s\<lparr>adapter := (\<lambda>r. adapter s r - {sid}), users := map_delete (users s) sid\<rparr>
             | Some r \<Rightarrow>
                 if filter (other_id (id_user u)) (users_room r) = []
                 then s\<lparr>adapter := (\<lambda>r. adapter s r - {sid}),
                        users := map_delete (users s) sid,
                        rooms := map_delete (rooms s) (roomId u)\<rparr>
                 else s\<lparr>adapter := (\<lambda>r. adapter s r - {sid}),
                        users := map_delete (users s) sid,
                        rooms := map_set (rooms s) (roomId u)
                                   (r\<lparr>users_room := filter (other_id (id_user u)) (users_room r)\<rparr>),
                        sent := sent s @
                          [\<lparr>target = ToRoom (roomId u), recipients = adapter s (roomId u) - {sid},
                            packet = UserLeft (id_user u)
                                       (filter (other_id (id_user u)) (users_room r))\<rparr>]\<rparr>))"
  by (simp add: disconnect_def Let_def io_to_emit_def has_get split: option.splits)

lemma map_of_foldl_update:
  "map_of (foldl (\<lambda>acc (k, x). AList.update k x acc) obj fs) = map_of obj ++ map_of (rev fs)"
proof (induction fs arbitrary: obj)
  case Nil
  show ?case by simp
next
  case (Cons p fs)
  obtain k x where p: "p = (k, x)" by (cases p)
  have "map_of (foldl (\<lambda>acc (k, x). AList.update k x acc) obj (p # fs))
          = map_of (AList.update k x obj) ++ map_of (rev fs)"
    using Cons.IH [of "AList.update k x obj"] p by simp
  also have "\<dots> = map_of obj ++ map_of (rev (p # fs))"
    by (simp add: p update_conv' map_add_def fun_eq_iff split: option.splits)
  finally show ?case .
qed

lemma field_spread:
  "field (spread obj v) k
     = (case map_of (rev (own_fields v)) k of None \<Rightarrow> field obj k | Some x \<Rightarrow> x)"
  by (simp add: field_def spread_def map_of_foldl_update map_add_def split: option.splits)

lemma field_spread_other:
  "k \<notin> fst ` set (own_fields v) \<Longrightarrow> field (spread obj v) k = field obj k"
proof -
  assume "k \<notin> fst ` set (own_fields v)"
  then have "map_of (rev (own_fields v)) k = None" by (simp add: map_of_eq_None_iff)
  then show ?thesis by (simp add: field_spread)
qed

lemma field_object_of:
  "field (object_of u) ''id'' = JStr (id_user u)"
  "field (object_of u) ''socketId'' = JStr (socketId u)"
  "field (object_of u) ''name'' = JStr (name u)"
  "field (object_of u) ''roomId'' = JStr (roomId u)"
  by (simp_all add: field_def object_of_def)


lemma not_in_image: "y \<notin> f ` A \<Longrightarrow> \<forall>x\<in>A. f x \<noteq> y"
  by auto

lemma in_image: "y \<in> f ` A \<Longrightarrow> (\<And>x. x \<in> A \<Longrightarrow> f x = y \<Longrightarrow> thesis) \<Longrightarrow> thesis"
  by auto





section \<open>The signaling server: rosters follow joins and leaves\<close>

lemma ids_filter:
  "(\<lambda>u. field u ''id'') ` set (filter (other_id x) xs) = (\<lambda>u. field u ''id'') ` set xs - {JStr x}"
  by (auto simp add: other_id_def)

lemma join_room_rooms:
  "roster (join_room sid rid uid nm fresh s) r
     = (if r = rid then roster s rid @ [object_of (newUser sid rid uid nm fresh)] else roster s r)"
  "map_has (rooms (join_room sid rid uid nm fresh s)) r = (r = rid \<or> map_has (rooms s) r)"
  "map_get (users (join_room sid rid uid nm fresh s)) k
     = (if k = sid then Some (newUser sid rid uid nm fresh) else map_get (users s) k)"
  by (simp_all add: join_room_eq roster_def has_get)

lemma leave_room_rooms:
  "roster (leave_room sid rid userId s) r
     = (if r = rid then filter (other_id userId) (roster s rid) else roster s r)"
  "map_has (rooms (leave_room sid rid userId s)) r
     = (if r = rid then filter (other_id userId) (roster s rid) \<noteq> []
        else map_has (rooms s) r)"
  "map_get (users (leave_room sid rid userId s)) k
     = (if map_has (rooms s) rid \<and> k = sid then None else map_get (users s) k)"
  by (cases "map_get (rooms s) rid";
      simp add: leave_room_unknown leave_room_known roster_def has_get split: if_splits)+

lemma send_message_rooms:
  "roster (send_message sid rid m s) r = roster s r"
  "map_has (rooms (send_message sid rid m s)) r = map_has (rooms s) r"
  "users (send_message sid rid m s) = users s"
  "adapter (send_message sid rid m s) = adapter s"
  by (cases "map_get (rooms s) rid"; cases "normalize m";
      simp add: send_message_unknown send_message_thrown send_message_known roster_def has_get)+

lemma signal_relay_rooms:
  "rooms (signal_relay sid sig to s) = rooms s"
  "users (signal_relay sid sig to s) = users s"
  "roster (signal_relay sid sig to s) = roster s"
  "adapter (signal_relay sid sig to s) = adapter s"
  by (simp_all add: signal_relay_def io_to_emit_def roster_def fun_eq_iff split: option.splits)


lemma connection_rooms:
  "rooms (connection sid s) = rooms s"
  "users (connection sid s) = users s"
  "roster (connection sid s) = roster s"
  "adapter (connection sid s) = (adapter s)(sid := insert sid (adapter s sid))"
  by (simp_all add: connection_def socket_join_def roster_def fun_eq_iff)

lemma disconnect_unbound:
  "map_get (users s) sid = None \<Longrightarrow>
   rooms (disconnect sid s) = rooms s \<and> users (disconnect sid s) = users s
   \<and> roster (disconnect sid s) = roster s"
  by (simp add: disconnect_eq roster_def fun_eq_iff)

lemma disconnect_rooms:
  assumes "map_get (users s) sid = Some u" "roomId u \<noteq> []"
  shows "roster (disconnect sid s) r
           = (if r = roomId u then filter (other_id (id_user u)) (roster s (roomId u))
              else roster s r)"
    and "map_has (rooms (disconnect sid s)) r
           = (if r = roomId u
              then filter (other_id (id_user u)) (roster s (roomId u)) \<noteq> []
              else map_has (rooms s) r)"
    and "users (disconnect sid s) = map_delete (users s) sid"
  using assms
  by (cases "map_get (rooms s) (roomId u)";
      simp add: disconnect_eq roster_def has_get split: if_splits)+


lemma image_JStr_diff: "JStr ` (L - {x}) = JStr ` L - {JStr x}"
  by auto

lemma leave_refines:
  assumes ids: "\<forall>r. (\<lambda>u. field u ''id'') ` set (roster s r) = JStr ` L r"
    and has: "\<forall>r. map_has (rooms s) r = (L r \<noteq> {})"
    and ro: "\<forall>r. roster s' r = (if r = rid then filter (other_id x) (roster s rid) else roster s r)"
    and ha: "\<forall>r. map_has (rooms s') r
               = (if r = rid then filter (other_id x) (roster s rid) \<noteq> []
                  else map_has (rooms s) r)"
  shows "(\<forall>r. (\<lambda>u. field u ''id'') ` set (roster s' r) = JStr ` ((L(rid := L rid - {x})) r))
       \<and> (\<forall>r. map_has (rooms s') r = ((L(rid := L rid - {x})) r \<noteq> {}))"
proof -
  from ids have L: "JStr ` L rid = (\<lambda>u. field u ''id'') ` set (roster s rid)" by simp
  have new: "(\<lambda>u. field u ''id'') ` set (filter (other_id x) (roster s rid)) = JStr ` (L rid - {x})"
    unfolding image_JStr_diff L by (rule ids_filter)
  have "filter (other_id x) (roster s rid) \<noteq> []
        \<longleftrightarrow> (\<lambda>u. field u ''id'') ` set (filter (other_id x) (roster s rid)) \<noteq> {}"
    by (auto simp add: filter_empty_conv)
  then have ne: "filter (other_id x) (roster s rid) \<noteq> [] \<longleftrightarrow> L rid - {x} \<noteq> {}"
    unfolding new by simp
  show ?thesis
    using ids has ro ha new ne by simp
qed

lemma joined_pairs:
  "set xs = {(u, r)} \<Longrightarrow>
   fst ` set (filter (\<lambda>p. snd p = r') xs) = (if r' = r then {u} else {})"
proof -
  assume a: "set xs = {(u, r)}"
  have "set (filter (\<lambda>p. snd p = r') xs) = {p \<in> set xs. snd p = r'}" by simp
  also have "\<dots> = (if r' = r then {(u, r)} else {})" unfolding a by auto
  finally show ?thesis by simp
qed

lemma handle_refines:
  assumes ids: "\<forall>r. (\<lambda>u. field u ''id'') ` set (roster s r) = JStr ` live st r"
    and has: "\<forall>r. map_has (rooms s) r = (live st r \<noteq> {})"
    and tab: "\<forall>k. set (joined_by st k)
                = (case map_get (users s) k of None \<Rightarrow> {} | Some u \<Rightarrow> {(id_user u, roomId u)})"
    and named: "\<forall>k u. map_get (users s) k = Some u \<longrightarrow> roomId u \<noteq> []"
    and e: "proper st e"
  shows "(\<forall>r. (\<lambda>u. field u ''id'') ` set (roster (handle s e) r) = JStr ` live (spec_step st e) r)
       \<and> (\<forall>r. map_has (rooms (handle s e)) r = (live (spec_step st e) r \<noteq> {}))
       \<and> (\<forall>k. set (joined_by (spec_step st e) k)
                = (case map_get (users (handle s e)) k of None \<Rightarrow> {}
                   | Some u \<Rightarrow> {(id_user u, roomId u)}))
       \<and> (\<forall>k u. map_get (users (handle s e)) k = Some u \<longrightarrow> roomId u \<noteq> [])"
proof (cases e)
  case (Connect sid)
  with ids has tab named show ?thesis by (simp add: connection_rooms)
next
  case (JoinRoom sid rid uid nm fresh)
  with e have rid: "rid \<noteq> []"
    and one: "set (joined_by st sid) \<subseteq> {(or_default uid fresh, rid)}" by simp_all
  from one have two: "insert (or_default uid fresh, rid) (set (joined_by st sid))
                      = {(or_default uid fresh, rid)}" by auto
  from ids has tab named rid two JoinRoom show ?thesis
    by (simp add: join_room_rooms newUser_def field_object_of)
next
  case (LeaveRoom sid rid userId)
  with e have mine: "(userId, rid) \<in> set (joined_by st sid)" by simp
  with tab obtain u where u: "map_get (users s) sid = Some u" "id_user u = userId" "roomId u = rid"
    by (cases "map_get (users s) sid") (auto simp del: set_removeAll)
  from u tab have only: "set (joined_by st sid) = {(userId, rid)}" by simp
  show ?thesis
  proof (cases "map_has (rooms s) rid")
    case False
    with has have "live st rid = {}" by simp
    moreover from False have "leave_room sid rid userId s = s" by (rule leave_room_unknown)
    ultimately show ?thesis using ids has tab named LeaveRoom by simp
  next
    case True
    with has have ne: "live st rid \<noteq> {}" by simp
    have "(\<forall>r. (\<lambda>u. field u ''id'') ` set (roster (leave_room sid rid userId s) r)
                 = JStr ` ((live st)(rid := live st rid - {userId})) r)
       \<and> (\<forall>r. map_has (rooms (leave_room sid rid userId s)) r
                 = (((live st)(rid := live st rid - {userId})) r \<noteq> {}))"
      using ids has by (rule leave_refines) (simp_all add: leave_room_rooms)
    moreover have "\<forall>k. set (joined_by (spec_step st e) k)
                = (case map_get (users (handle s e)) k of None \<Rightarrow> {}
                   | Some u \<Rightarrow> {(id_user u, roomId u)})"
      using tab only ne True LeaveRoom by (simp add: leave_room_rooms)
    moreover have "\<forall>k u. map_get (users (handle s e)) k = Some u \<longrightarrow> roomId u \<noteq> []"
      using named LeaveRoom by (simp add: leave_room_rooms)
    ultimately show ?thesis using LeaveRoom ne by simp
  qed
next
  case (SignalEv sid sig to)
  with ids has tab named show ?thesis by (simp add: signal_relay_rooms)
next
  case (UpdateMedia sid rid userId upd)
  with e show ?thesis by simp
next
  case (SendMessage sid rid m)
  with ids has tab named show ?thesis by (simp add: send_message_rooms)
next
  case (Disconnect sid)
  show ?thesis
  proof (cases "map_get (users s) sid")
    case None
    with tab have "set (joined_by st sid) = {}" by simp
    then have "joined_by st sid = []" by simp
    with None ids has tab named Disconnect show ?thesis
      by (simp add: disconnect_unbound)
  next
    case (Some u)
    with named have rn: "roomId u \<noteq> []" by blast
    from Some tab have only: "set (joined_by st sid) = {(id_user u, roomId u)}" by simp
    have gone: "(\<lambda>r. live st r - fst ` set (filter (\<lambda>p. snd p = r) (joined_by st sid)))
                  = (live st)(roomId u := live st (roomId u) - {id_user u})"
    proof (rule ext)
      fix r
      show "live st r - fst ` set (filter (\<lambda>p. snd p = r) (joined_by st sid))
              = ((live st)(roomId u := live st (roomId u) - {id_user u})) r"
        unfolding joined_pairs [OF only] by simp
    qed
    have "(\<forall>r. (\<lambda>v. field v ''id'') ` set (roster (disconnect sid s) r)
                = JStr ` ((live st)(roomId u := live st (roomId u) - {id_user u})) r)
       \<and> (\<forall>r. map_has (rooms (disconnect sid s)) r
                = (((live st)(roomId u := live st (roomId u) - {id_user u})) r \<noteq> {}))"
      using ids has by (rule leave_refines) (simp_all add: disconnect_rooms [OF Some rn])
    moreover have "\<forall>k. set (joined_by (spec_step st e) k)
                = (case map_get (users (handle s e)) k of None \<Rightarrow> {}
                   | Some u \<Rightarrow> {(id_user u, roomId u)})"
      using tab Disconnect by (simp add: disconnect_rooms [OF Some rn])
    moreover have "\<forall>k v. map_get (users (disconnect sid s)) k = Some v \<longrightarrow> roomId v \<noteq> []"
      using named by (simp add: disconnect_rooms [OF Some rn])
    ultimately show ?thesis using Disconnect gone by simp
  qed
qed

lemma serve_refines:
  "\<forall>r. (\<lambda>u. field u ''id'') ` set (roster s r) = JStr ` live st r \<Longrightarrow>
   \<forall>r. map_has (rooms s) r = (live st r \<noteq> {}) \<Longrightarrow>
   \<forall>k. set (joined_by st k)
         = (case map_get (users s) k of None \<Rightarrow> {} | Some u \<Rightarrow> {(id_user u, roomId u)}) \<Longrightarrow>
   \<forall>k u. map_get (users s) k = Some u \<longrightarrow> roomId u \<noteq> [] \<Longrightarrow>
   orderly st es \<Longrightarrow>
   (\<forall>r. (\<lambda>u. field u ''id'') ` set (roster (foldl handle s es) r)
          = JStr ` live (foldl spec_step st es) r)
   \<and> (\<forall>r. map_has (rooms (foldl handle s es)) r = (live (foldl spec_step st es) r \<noteq> {}))"
proof (induction es arbitrary: s st)
  case Nil
  then show ?case by simp
next
  case (Cons e es)
  from Cons.prems(5) have e: "proper st e" and es: "orderly (spec_step st e) es" by simp_all
  from handle_refines [OF Cons.prems(1-4) e]
  have step: "\<forall>r. (\<lambda>u. field u ''id'') ` set (roster (handle s e) r) = JStr ` live (spec_step st e) r"
    "\<forall>r. map_has (rooms (handle s e)) r = (live (spec_step st e) r \<noteq> {})"
    "\<forall>k. set (joined_by (spec_step st e) k)
                = (case map_get (users (handle s e)) k of None \<Rightarrow> {}
                   | Some u \<Rightarrow> {(id_user u, roomId u)})"
    "\<forall>k u. map_get (users (handle s e)) k = Some u \<longrightarrow> roomId u \<noteq> []"
    by blast+
  from Cons.IH [OF step es] show ?case by simp
qed

section \<open>The signaling server: the table of bound transports\<close>
















section \<open>Properties of the signaling server\<close>

text \<open>
  The current members of a room are the transports that socket.io holds in the room of
  that name: \<open>io.to(roomId).emit\<close> reaches exactly those, and \<open>recipients\<close> records them
  for every emission.
\<close>

text \<open>
  C5. For every \<open>join-room\<close>: the new participant is the object with the id of the payload
  (or a generated id when the payload has none, or an empty one), the id of the joining
  transport, the name of the payload and the room id (first four conjuncts). The room then
  holds the roster it had, with the new participant appended. The \<open>user-joined\<close> event
  carries the new participant and this full roster and goes to every transport in the room,
  that is, to the members that were there and to the transport of the newly joined
  participant itself, which socket.io has added before the emission. The \<open>room-info\<close> event
  carries the full room (id, roster, message history) and goes to the joiner alone.
\<close>

theorem join_broadcast_includes_joiner:
  "object_of (newUser sid rid uid nm fresh)
     = [(''id'', JStr (or_default uid fresh)), (''socketId'', JStr sid),
        (''name'', JStr nm), (''roomId'', JStr rid)]
   \<and> or_default None fresh = fresh
   \<and> or_default (Some []) fresh = fresh
   \<and> (i \<noteq> [] \<longrightarrow> or_default (Some i) fresh = i)
   \<and> (\<exists>room. map_get (rooms (join_room sid rid uid nm fresh s)) rid = Some room
         \<and> id_room room = (case map_get (rooms s) rid of None \<Rightarrow> rid | Some r \<Rightarrow> id_room r)
         \<and> users_room room = roster s rid @ [object_of (newUser sid rid uid nm fresh)]
         \<and> messages_room room = history s rid
         \<and> adapter (join_room sid rid uid nm fresh s) rid = insert sid (adapter s rid)
         \<and> sent (join_room sid rid uid nm fresh s)
             = sent s @
               [\<lparr>target = ToRoom rid,
                 recipients = adapter (join_room sid rid uid nm fresh s) rid,
                 packet = UserJoined (object_of (newUser sid rid uid nm fresh)) (users_room room)\<rparr>,
                \<lparr>target = ToSocket sid, recipients = {sid}, packet = RoomInfo room\<rparr>])"
  by (simp add: join_room_eq object_of_def newUser_def or_default_def)

theorem join_broadcast_includes_joiner_witness:
  "''B'' \<noteq> []
   \<and> sent (join_room ''s2'' ''abc'' (Some ''B'') ''Bob'' ''u2''
        (serve initial [Connect ''s1'', JoinRoom ''s1'' ''abc'' None ''Ann'' ''u1'', Connect ''s2'']))
     = [\<lparr>target = ToRoom ''abc'', recipients = {''s1''},
         packet = UserJoined
           [(''id'', JStr ''u1''), (''socketId'', JStr ''s1''), (''name'', JStr ''Ann''),
            (''roomId'', JStr ''abc'')]
           [[(''id'', JStr ''u1''), (''socketId'', JStr ''s1''), (''name'', JStr ''Ann''),
             (''roomId'', JStr ''abc'')]]\<rparr>,
        \<lparr>target = ToSocket ''s1'', recipients = {''s1''},
         packet = RoomInfo
           \<lparr>id_room = ''abc'',
            users_room = [[(''id'', JStr ''u1''), (''socketId'', JStr ''s1''),
                           (''name'', JStr ''Ann''), (''roomId'', JStr ''abc'')]],
            messages_room = []\<rparr>\<rparr>,
        \<lparr>target = ToRoom ''abc'', recipients = {''s2'', ''s1''},
         packet = UserJoined
           [(''id'', JStr ''B''), (''socketId'', JStr ''s2''), (''name'', JStr ''Bob''),
            (''roomId'', JStr ''abc'')]
           [[(''id'', JStr ''u1''), (''socketId'', JStr ''s1''), (''name'', JStr ''Ann''),
             (''roomId'', JStr ''abc'')],
            [(''id'', JStr ''B''), (''socketId'', JStr ''s2''), (''name'', JStr ''Bob''),
             (''roomId'', JStr ''abc'')]]\<rparr>,
        \<lparr>target = ToSocket ''s2'', recipients = {''s2''},
         packet = RoomInfo
           \<lparr>id_room = ''abc'',
            users_room = [[(''id'', JStr ''u1''), (''socketId'', JStr ''s1''),
                           (''name'', JStr ''Ann''), (''roomId'', JStr ''abc'')],
                          [(''id'', JStr ''B''), (''socketId'', JStr ''s2''),
                           (''name'', JStr ''Bob''), (''roomId'', JStr ''abc'')]],
            messages_room = []\<rparr>\<rparr>]"
  using join_broadcast_includes_joiner
          [of "''s2''" "''abc''" "Some ''B''" "''Bob''" "''u2''" "''B''"
              "serve initial [Connect ''s1'', JoinRoom ''s1'' ''abc'' None ''Ann'' ''u1'', Connect ''s2'']"]
  by (simp add: serve_def initial_def connection_def socket_join_def join_room_eq
        roster_def history_def object_of_def newUser_def or_default_def
        map_get_def map_set_def)




text \<open>
  C7. For every \<open>update-media\<close>: when the room or the participant is unknown the state is
  unchanged and nothing is emitted (first conjunct). Otherwise the roster holds an object
  with this id (second conjunct), and the update is merged into the first such object;
  every other object of the roster, every other room, the message history, the gateway's
  table of transports and the membership of the socket.io rooms stay as they are; and one
  event is emitted, to the members of the room, which carries the participant's id and the
  update and no roster (third conjunct). The merge is the object spread: a field that the
  update names takes the value of the update, and every other field of the participant
  keeps its value (fourth and fifth conjunct); the fields that an object names are its own
  (sixth conjunct).
\<close>

theorem update_media_effect:
  "((\<not> map_has (rooms s) rid \<or> JStr userId \<notin> ids s rid)
      \<longrightarrow> update_media sid rid userId upd s = s)
   \<and> (map_has (rooms s) rid \<and> JStr userId \<in> ids s rid \<longrightarrow>
        (\<exists>i. findIndex (\<lambda>u. field u ''id'' = JStr userId) (roster s rid) = Some i))
   \<and> (findIndex (\<lambda>u. field u ''id'' = JStr userId) (roster s rid) = Some i \<longrightarrow>
        i < length (roster s rid) \<and> field (roster s rid ! i) ''id'' = JStr userId
        \<and> (\<forall>j<i. field (roster s rid ! j) ''id'' \<noteq> JStr userId)
        \<and> roster (update_media sid rid userId upd s) rid
            = (roster s rid)[i := spread (roster s rid ! i) upd]
        \<and> (\<forall>j. j \<noteq> i \<longrightarrow> roster (update_media sid rid userId upd s) rid ! j = roster s rid ! j)
        \<and> (\<forall>r. r \<noteq> rid \<longrightarrow>
              map_get (rooms (update_media sid rid userId upd s)) r = map_get (rooms s) r)
        \<and> history (update_media sid rid userId upd s) rid = history s rid
        \<and> users (update_media sid rid userId upd s) = users s
        \<and> adapter (update_media sid rid userId upd s) = adapter s
        \<and> sent (update_media sid rid userId upd s)
            = sent s @
              [\<lparr>target = ToRoom rid, recipients = adapter s rid,
                packet = UpdateMediaOut userId upd\<rparr>])
   \<and> field (spread u upd) k
       = (case map_of (rev (own_fields upd)) k of None \<Rightarrow> field u k | Some x \<Rightarrow> x)
   \<and> (k \<notin> fst ` set (own_fields upd) \<longrightarrow> field (spread u upd) k = field u k)
   \<and> own_fields (JObj fs) = fs"
proof (intro conjI impI)
  assume a: "\<not> map_has (rooms s) rid \<or> JStr userId \<notin> ids s rid"
  have "\<forall>u\<in>set (roster s rid). field u ''id'' \<noteq> JStr userId"
  proof (cases "map_has (rooms s) rid")
    case False
    then show ?thesis by (simp add: roster_def has_get)
  next
    case True
    with a have "JStr userId \<notin> ids s rid" by simp
    then show ?thesis unfolding ids_def by (rule not_in_image)
  qed
  then have "findIndex (\<lambda>u. field u ''id'' = JStr userId) (roster s rid) = None"
    by (simp add: findIndex_None)
  then show "update_media sid rid userId upd s = s" by (rule update_media_skip)
next
  assume "map_has (rooms s) rid \<and> JStr userId \<in> ids s rid"
  then have "JStr userId \<in> (\<lambda>u. field u ''id'') ` set (roster s rid)"
    by (simp add: ids_def)
  then obtain u where "u \<in> set (roster s rid)" "field u ''id'' = JStr userId"
    by (rule in_image)
  then have "findIndex (\<lambda>u. field u ''id'' = JStr userId) (roster s rid) \<noteq> None"
    unfolding findIndex_None by blast
  then show "\<exists>i. findIndex (\<lambda>u. field u ''id'' = JStr userId) (roster s rid) = Some i"
    by blast
next
  assume f: "findIndex (\<lambda>u. field u ''id'' = JStr userId) (roster s rid) = Some i"
  then obtain r where r: "map_get (rooms s) rid = Some r" "users_room r = roster s rid"
    by (cases "map_get (rooms s) rid") (simp_all add: roster_def)
  from f r have fi: "findIndex (\<lambda>u. field u ''id'' = JStr userId) (users_room r) = Some i"
    by simp
  note eq = update_media_known [OF r(1) fi]
  from findIndex_Some [OF f] show "i < length (roster s rid)" by simp
  from findIndex_Some [OF f] show "field (roster s rid ! i) ''id'' = JStr userId" by simp
  from findIndex_Some [OF f] show "\<forall>j<i. field (roster s rid ! j) ''id'' \<noteq> JStr userId" by simp
  show "roster (update_media sid rid userId upd s) rid
            = (roster s rid)[i := spread (roster s rid ! i) upd]"
    using r(1) by (simp add: eq roster_def)
  then show "\<forall>j. j \<noteq> i \<longrightarrow> roster (update_media sid rid userId upd s) rid ! j = roster s rid ! j"
    by simp
  show "\<forall>r. r \<noteq> rid \<longrightarrow>
              map_get (rooms (update_media sid rid userId upd s)) r = map_get (rooms s) r"
    by (simp add: eq)
  show "history (update_media sid rid userId upd s) rid = history s rid"
    using r(1) by (simp add: eq history_def)
  show "users (update_media sid rid userId upd s) = users s" by (simp add: eq)
  show "adapter (update_media sid rid userId upd s) = adapter s" by (simp add: eq)
  show "sent (update_media sid rid userId upd s)
            = sent s @
              [\<lparr>target = ToRoom rid, recipients = adapter s rid,
                packet = UpdateMediaOut userId upd\<rparr>]"
    by (simp add: eq)
next
  show "field (spread u upd) k
       = (case map_of (rev (own_fields upd)) k of None \<Rightarrow> field u k | Some x \<Rightarrow> x)"
    by (rule field_spread)
next
  assume "k \<notin> fst ` set (own_fields upd)"
  then show "field (spread u upd) k = field u k" by (rule field_spread_other)
next
  show "own_fields (JObj fs) = fs" by simp
qed

theorem update_media_effect_witness:
  "findIndex (\<lambda>u. field u ''id'' = JStr ''B'')
     (roster (serve initial
         [JoinRoom ''s1'' ''abc'' (Some ''A'') ''Ann'' ''u1'',
          JoinRoom ''s2'' ''abc'' (Some ''B'') ''Bob'' ''u2'']) ''abc'') = Some 1
   \<and> roster (update_media ''s2'' ''abc'' ''B''
               (JObj [(''videoEnabled'', JBool False), (''name'', JStr ''Rob'')])
               (serve initial
                  [JoinRoom ''s1'' ''abc'' (Some ''A'') ''Ann'' ''u1'',
                   JoinRoom ''s2'' ''abc'' (Some ''B'') ''Bob'' ''u2''])) ''abc''
       = [[(''id'', JStr ''A''), (''socketId'', JStr ''s1''), (''name'', JStr ''Ann''),
           (''roomId'', JStr ''abc'')],
          [(''id'', JStr ''B''), (''socketId'', JStr ''s2''), (''name'', JStr ''Rob''),
           (''roomId'', JStr ''abc''), (''videoEnabled'', JBool False)]]
   \<and> last (sent (update_media ''s2'' ''abc'' ''B''
               (JObj [(''videoEnabled'', JBool False), (''name'', JStr ''Rob'')])
               (serve initial
                  [JoinRoom ''s1'' ''abc'' (Some ''A'') ''Ann'' ''u1'',
                   JoinRoom ''s2'' ''abc'' (Some ''B'') ''Bob'' ''u2''])))
       = \<lparr>target = ToRoom ''abc'', recipients = {''s2'', ''s1''},
          packet = UpdateMediaOut ''B''
                     (JObj [(''videoEnabled'', JBool False), (''name'', JStr ''Rob'')])\<rparr>
   \<and> JStr ''C'' \<notin> ids (serve initial
         [JoinRoom ''s1'' ''abc'' (Some ''A'') ''Ann'' ''u1'',
          JoinRoom ''s2'' ''abc'' (Some ''B'') ''Bob'' ''u2'']) ''abc''
   \<and> update_media ''s2'' ''abc'' ''C''
        (JObj [(''videoEnabled'', JBool False)])
        (serve initial
           [JoinRoom ''s1'' ''abc'' (Some ''A'') ''Ann'' ''u1'',
            JoinRoom ''s2'' ''abc'' (Some ''B'') ''Bob'' ''u2''])
       = serve initial
           [JoinRoom ''s1'' ''abc'' (Some ''A'') ''Ann'' ''u1'',
            JoinRoom ''s2'' ''abc'' (Some ''B'') ''Bob'' ''u2'']
   \<and> ''id'' \<notin> fst ` set (own_fields (JObj [(''videoEnabled'', JBool False)]))
   \<and> field (spread [(''id'', JStr ''B''), (''videoEnabled'', JBool True)]
              (JObj [(''videoEnabled'', JBool False)])) ''id'' = JStr ''B''
   \<and> field (spread [(''id'', JStr ''B''), (''videoEnabled'', JBool True)]
              (JObj [(''videoEnabled'', JBool False)])) ''videoEnabled'' = JBool False
   \<and> spread [(''id'', JStr ''B'')] (JObj [(''id'', JStr ''A''), (''muted'', JBool True)])
       = [(''id'', JStr ''A''), (''muted'', JBool True)]
   \<and> spread [(''id'', JStr ''B'')] (JArr [JBool True, JNull])
       = [(''id'', JStr ''B''), (''0'', JBool True), (''1'', JNull)]
   \<and> spread [(''id'', JStr ''B'')] (JStr ''hi'')
       = [(''id'', JStr ''B''), (''0'', JStr ''h''), (''1'', JStr ''i'')]
   \<and> spread [(''id'', JStr ''B'')] JNull = [(''id'', JStr ''B'')]
   \<and> spread [(''id'', JStr ''B'')] JUndefined = [(''id'', JStr ''B'')]
   \<and> spread [(''id'', JStr ''B'')] (JNum 7) = [(''id'', JStr ''B'')]
   \<and> spread [(''id'', JStr ''B'')] (JBool True) = [(''id'', JStr ''B'')]
   \<and> decimal 405 = ''405''"
  using update_media_effect
          [of "serve initial
                 [JoinRoom ''s1'' ''abc'' (Some ''A'') ''Ann'' ''u1'',
                  JoinRoom ''s2'' ''abc'' (Some ''B'') ''Bob'' ''u2'']"
              "''abc''" "''B''" "''s2''"
              "JObj [(''videoEnabled'', JBool False), (''name'', JStr ''Rob'')]"
              1 "[(''id'', JStr ''B''), (''videoEnabled'', JBool True)]" "''id''"
              "[(''videoEnabled'', JBool False)]"]
        update_media_effect
          [of "serve initial
                 [JoinRoom ''s1'' ''abc'' (Some ''A'') ''Ann'' ''u1'',
                  JoinRoom ''s2'' ''abc'' (Some ''B'') ''Bob'' ''u2'']"
              "''abc''" "''C''" "''s2''"
              "JObj [(''videoEnabled'', JBool False)]"
              0 "[(''id'', JStr ''B''), (''videoEnabled'', JBool True)]" "''id''"
              "[(''videoEnabled'', JBool False)]"]
  by (simp add: serve_def initial_def join_room_eq has_get roster_def history_def ids_def
        object_of_def newUser_def or_default_def spread_def field_def upt_rec)

text \<open>
  C9. For every \<open>leave-room\<close>: on an unknown room the state is unchanged (first conjunct).
  On a known room every object whose id is the given participant id is taken out of the
  roster, the room is deleted exactly when the roster has become empty, the other rooms stay
  as they are, and a \<open>user-left\<close> event with the updated roster goes to the members that
  remain once the leaving transport is out of the room (second conjunct). The handler emits
  this event in either case; when the room was deleted it carries the empty roster.
\<close>

theorem leave_room_effect:
  "(\<not> map_has (rooms s) rid \<longrightarrow> leave_room sid rid userId s = s)
   \<and> (map_has (rooms s) rid \<longrightarrow>
        roster (leave_room sid rid userId s) rid
          = filter (\<lambda>u. field u ''id'' \<noteq> JStr userId) (roster s rid)
        \<and> (map_has (rooms (leave_room sid rid userId s)) rid
             = (filter (\<lambda>u. field u ''id'' \<noteq> JStr userId) (roster s rid) \<noteq> []))
        \<and> (\<forall>r. r \<noteq> rid \<longrightarrow>
              map_get (rooms (leave_room sid rid userId s)) r = map_get (rooms s) r)
        \<and> sent (leave_room sid rid userId s)
            = sent s @
              [\<lparr>target = ToRoom rid, recipients = adapter s rid - {sid},
                packet = UserLeft userId
                           (filter (\<lambda>u. field u ''id'' \<noteq> JStr userId) (roster s rid))\<rparr>])"
proof (intro conjI impI)
  assume "\<not> map_has (rooms s) rid"
  then show "leave_room sid rid userId s = s" by (rule leave_room_unknown)
next
  have f: "other_id userId = (\<lambda>u. field u ''id'' \<noteq> JStr userId)"
    by (simp add: other_id_def fun_eq_iff)
  assume "map_has (rooms s) rid"
  then obtain r where r: "map_get (rooms s) rid = Some r"
    by (auto simp add: has_get)
  show "roster (leave_room sid rid userId s) rid
          = filter (\<lambda>u. field u ''id'' \<noteq> JStr userId) (roster s rid)"
    using r by (simp add: leave_room_known roster_def f)
  show "map_has (rooms (leave_room sid rid userId s)) rid
             = (filter (\<lambda>u. field u ''id'' \<noteq> JStr userId) (roster s rid) \<noteq> [])"
    using r by (simp add: leave_room_known roster_def has_get f)
  show "\<forall>r. r \<noteq> rid \<longrightarrow>
              map_get (rooms (leave_room sid rid userId s)) r = map_get (rooms s) r"
    using r by (simp add: leave_room_known)
  show "sent (leave_room sid rid userId s)
            = sent s @
              [\<lparr>target = ToRoom rid, recipients = adapter s rid - {sid},
                packet = UserLeft userId
                           (filter (\<lambda>u. field u ''id'' \<noteq> JStr userId) (roster s rid))\<rparr>]"
    using r by (simp add: leave_room_known roster_def f)
qed

theorem leave_room_effect_witness:
  "\<not> map_has (rooms initial) ''abc''
   \<and> leave_room ''s1'' ''abc'' ''A'' initial = initial
   \<and> map_has (rooms (serve initial
         [JoinRoom ''s1'' ''abc'' (Some ''A'') ''Ann'' ''u1'',
          JoinRoom ''s2'' ''abc'' (Some ''B'') ''Bob'' ''u2''])) ''abc''
   \<and> roster (leave_room ''s2'' ''abc'' ''B'' (serve initial
         [JoinRoom ''s1'' ''abc'' (Some ''A'') ''Ann'' ''u1'',
          JoinRoom ''s2'' ''abc'' (Some ''B'') ''Bob'' ''u2''])) ''abc''
       = [[(''id'', JStr ''A''), (''socketId'', JStr ''s1''), (''name'', JStr ''Ann''),
           (''roomId'', JStr ''abc'')]]
   \<and> map_has (rooms (leave_room ''s2'' ''abc'' ''B'' (serve initial
         [JoinRoom ''s1'' ''abc'' (Some ''A'') ''Ann'' ''u1'',
          JoinRoom ''s2'' ''abc'' (Some ''B'') ''Bob'' ''u2'']))) ''abc''
   \<and> last (sent (leave_room ''s2'' ''abc'' ''B'' (serve initial
         [JoinRoom ''s1'' ''abc'' (Some ''A'') ''Ann'' ''u1'',
          JoinRoom ''s2'' ''abc'' (Some ''B'') ''Bob'' ''u2''])))
       = \<lparr>target = ToRoom ''abc'', recipients = {''s1''},
          packet = UserLeft ''B''
            [[(''id'', JStr ''A''), (''socketId'', JStr ''s1''), (''name'', JStr ''Ann''),
              (''roomId'', JStr ''abc'')]]\<rparr>"
  using leave_room_effect [of initial "''abc''" "''s1''" "''A''"]
        leave_room_effect
          [of "serve initial
                 [JoinRoom ''s1'' ''abc'' (Some ''A'') ''Ann'' ''u1'',
                  JoinRoom ''s2'' ''abc'' (Some ''B'') ''Bob'' ''u2'']"
              "''abc''" "''s2''" "''B''"]
  by (auto simp add: serve_def initial_def join_room_eq has_get roster_def history_def
        object_of_def newUser_def or_default_def field_def)

text \<open>
  C2, as stated: for any sequence of joins, leaves and disconnects, the list of a room holds
  exactly the participants that have joined and have not since left, and the room is
  registered if and only if there is such a participant. On the code this fails in three
  ways. A participant that has joined the room whose id is the empty string stays in its
  list when its transport disconnects, because the \<open>disconnect\<close> handler takes the empty
  \<open>roomId\<close> of its record for no room (first conjunct). A \<open>leave-room\<close> deletes the
  record of the transport that sends it, whoever it names: after \<open>s1\<close> has sent a leave for
  the participant of \<open>s2\<close>, the disconnect of \<open>s1\<close> finds no record and leaves its own
  participant \<open>A\<close> in the list (second conjunct). And a second join through the same
  transport overwrites its record: the disconnect removes the participant of the last join
  only, and \<open>A\<close> stays in the first room (third conjunct).
\<close>

theorem roster_outlives_transport_counterexample:
  "ids (serve initial
          [JoinRoom ''s1'' [] (Some ''A'') ''Ann'' ''u1'', Disconnect ''s1'']) [] = {JStr ''A''}
   \<and> map_has (rooms (serve initial
          [JoinRoom ''s1'' [] (Some ''A'') ''Ann'' ''u1'', Disconnect ''s1''])) []
   \<and> joined_not_left [JoinRoom ''s1'' [] (Some ''A'') ''Ann'' ''u1'', Disconnect ''s1''] [] = {}
   \<and> ids (serve initial
          [JoinRoom ''s1'' ''abc'' (Some ''A'') ''Ann'' ''u1'',
           JoinRoom ''s2'' ''abc'' (Some ''B'') ''Bob'' ''u2'',
           LeaveRoom ''s1'' ''abc'' ''B'', Disconnect ''s1'']) ''abc'' = {JStr ''A''}
   \<and> joined_not_left
          [JoinRoom ''s1'' ''abc'' (Some ''A'') ''Ann'' ''u1'',
           JoinRoom ''s2'' ''abc'' (Some ''B'') ''Bob'' ''u2'',
           LeaveRoom ''s1'' ''abc'' ''B'', Disconnect ''s1''] ''abc'' = {}
   \<and> ids (serve initial
          [JoinRoom ''s1'' ''abc'' (Some ''A'') ''Ann'' ''u1'',
           JoinRoom ''s1'' ''xyz'' (Some ''B'') ''Bob'' ''u2'',
           Disconnect ''s1'']) ''abc'' = {JStr ''A''}
   \<and> joined_not_left
          [JoinRoom ''s1'' ''abc'' (Some ''A'') ''Ann'' ''u1'',
           JoinRoom ''s1'' ''xyz'' (Some ''B'') ''Bob'' ''u2'',
           Disconnect ''s1''] ''abc'' = {}"
  by (simp add: serve_def initial_def join_room_eq leave_room_def disconnect_eq ids_def
        roster_def history_def has_get Let_def newUser_def or_default_def object_of_def
        field_def other_id_def io_to_emit_def socket_leave_def joined_not_left_def nobody_def)

text \<open>
  C2, amended. Take any sequence of joins, leaves and disconnects (connections, signals
  and chat messages may come in between) in which every join carries a room id that is
  not empty and comes from a transport through which nothing else is joined at that
  moment, and every leave is sent by the transport through which the participant it names
  has joined the room it names. After it, from the initial state, the ids of the
  participants in the list of a room are exactly the participants that have joined the
  room and have not since left it, and the room is registered if and only if there is such
  a participant. A participant is its id: when two transports have joined a room under
  the same id, the leave or the disconnect of one of them takes the id out of the room. A
  disconnect is the leave of what has joined through the closing transport.
\<close>

theorem roster_is_joined_not_left:
  "orderly nobody es \<Longrightarrow>
   ids (serve initial es) rid = JStr ` joined_not_left es rid
   \<and> map_has (rooms (serve initial es)) rid = (joined_not_left es rid \<noteq> {})"
proof -
  assume o: "orderly nobody es"
  have "\<forall>r. (\<lambda>u. field u ''id'') ` set (roster initial r) = JStr ` live nobody r"
    by (simp add: roster_def initial_def nobody_def)
  moreover have "\<forall>r. map_has (rooms initial) r = (live nobody r \<noteq> {})"
    by (simp add: has_get initial_def nobody_def)
  moreover have "\<forall>k. set (joined_by nobody k)
         = (case map_get (users initial) k of None \<Rightarrow> {} | Some u \<Rightarrow> {(id_user u, roomId u)})"
    by (simp add: initial_def nobody_def)
  moreover have "\<forall>k u. map_get (users initial) k = Some u \<longrightarrow> roomId u \<noteq> []"
    by (simp add: initial_def)
  ultimately have
    "(\<forall>r. (\<lambda>u. field u ''id'') ` set (roster (foldl handle initial es) r)
          = JStr ` live (foldl spec_step nobody es) r)
     \<and> (\<forall>r. map_has (rooms (foldl handle initial es)) r
          = (live (foldl spec_step nobody es) r \<noteq> {}))"
    using o by (rule serve_refines)
  then show ?thesis
    by (simp add: ids_def serve_def joined_not_left_def)
qed

theorem roster_is_joined_not_left_witness:
  "orderly nobody
     [Connect ''s1'', JoinRoom ''s1'' ''abc'' (Some ''A'') ''Ann'' ''u1'',
      Connect ''s2'', JoinRoom ''s2'' ''abc'' None ''Bob'' ''u2'',
      Connect ''s3'', JoinRoom ''s3'' ''xyz'' (Some ''C'') ''Cy'' ''u3'',
      LeaveRoom ''s1'' ''abc'' ''A'', Disconnect ''s3'']
   \<and> joined_not_left
     [Connect ''s1'', JoinRoom ''s1'' ''abc'' (Some ''A'') ''Ann'' ''u1'',
      Connect ''s2'', JoinRoom ''s2'' ''abc'' None ''Bob'' ''u2'',
      Connect ''s3'', JoinRoom ''s3'' ''xyz'' (Some ''C'') ''Cy'' ''u3'',
      LeaveRoom ''s1'' ''abc'' ''A'', Disconnect ''s3''] ''abc'' = {''u2''}
   \<and> ids (serve initial
     [Connect ''s1'', JoinRoom ''s1'' ''abc'' (Some ''A'') ''Ann'' ''u1'',
      Connect ''s2'', JoinRoom ''s2'' ''abc'' None ''Bob'' ''u2'',
      Connect ''s3'', JoinRoom ''s3'' ''xyz'' (Some ''C'') ''Cy'' ''u3'',
      LeaveRoom ''s1'' ''abc'' ''A'', Disconnect ''s3'']) ''abc'' = {JStr ''u2''}
   \<and> map_has (rooms (serve initial
     [Connect ''s1'', JoinRoom ''s1'' ''abc'' (Some ''A'') ''Ann'' ''u1'',
      Connect ''s2'', JoinRoom ''s2'' ''abc'' None ''Bob'' ''u2'',
      Connect ''s3'', JoinRoom ''s3'' ''xyz'' (Some ''C'') ''Cy'' ''u3'',
      LeaveRoom ''s1'' ''abc'' ''A'', Disconnect ''s3''])) ''abc''
   \<and> joined_not_left
     [Connect ''s1'', JoinRoom ''s1'' ''abc'' (Some ''A'') ''Ann'' ''u1'',
      Connect ''s2'', JoinRoom ''s2'' ''abc'' None ''Bob'' ''u2'',
      Connect ''s3'', JoinRoom ''s3'' ''xyz'' (Some ''C'') ''Cy'' ''u3'',
      LeaveRoom ''s1'' ''abc'' ''A'', Disconnect ''s3''] ''xyz'' = {}
   \<and> \<not> map_has (rooms (serve initial
     [Connect ''s1'', JoinRoom ''s1'' ''abc'' (Some ''A'') ''Ann'' ''u1'',
      Connect ''s2'', JoinRoom ''s2'' ''abc'' None ''Bob'' ''u2'',
      Connect ''s3'', JoinRoom ''s3'' ''xyz'' (Some ''C'') ''Cy'' ''u3'',
      LeaveRoom ''s1'' ''abc'' ''A'', Disconnect ''s3''])) ''xyz''"
  using roster_is_joined_not_left
          [of "[Connect ''s1'', JoinRoom ''s1'' ''abc'' (Some ''A'') ''Ann'' ''u1'',
                Connect ''s2'', JoinRoom ''s2'' ''abc'' None ''Bob'' ''u2'',
                Connect ''s3'', JoinRoom ''s3'' ''xyz'' (Some ''C'') ''Cy'' ''u3'',
                LeaveRoom ''s1'' ''abc'' ''A'', Disconnect ''s3'']" "''abc''"]
        roster_is_joined_not_left
          [of "[Connect ''s1'', JoinRoom ''s1'' ''abc'' (Some ''A'') ''Ann'' ''u1'',
                Connect ''s2'', JoinRoom ''s2'' ''abc'' None ''Bob'' ''u2'',
                Connect ''s3'', JoinRoom ''s3'' ''xyz'' (Some ''C'') ''Cy'' ''u3'',
                LeaveRoom ''s1'' ''abc'' ''A'', Disconnect ''s3'']" "''xyz''"]
  by (simp add: joined_not_left_def nobody_def or_default_def insert_Diff_if)




end
